theory Spec2Isabelle
  imports Complex_Main "HOL-Library.Product_Lexorder" "HOL-Library.Multiset"
begin

section \<open>Exceptions and HTTP failures\<close>

text \<open>
  The Python exceptions that the handlers of \<^verbatim>\<open>main.py\<close> can meet, and the two ways a
  request fails: an \<^verbatim>\<open>HTTPException\<close> carrying its status code, or any other exception,
  which no handler catches and the framework answers with status 500.
\<close>

datatype pyexc = ValueError | OverflowError | CsvError | IntegrityError | OSError

datatype failure = HTTPException nat | Unhandled pyexc

fun status_code :: "failure \<Rightarrow> nat" where
  "status_code (HTTPException c) = c"
| "status_code (Unhandled e) = 500"

section \<open>Text helpers\<close>

text \<open>\<^verbatim>\<open>str(n)\<close> for a non-negative integer: its decimal digits.\<close>

definition digit_char :: "nat \<Rightarrow> char" where
  "digit_char n = ''0123456789'' ! n"

fun str_nat :: "nat \<Rightarrow> string" where
  "str_nat n = (if n < 10 then [digit_char n] else str_nat (n div 10) @ [digit_char (n mod 10)])"

declare str_nat.simps [simp del]

text \<open>\<^verbatim>\<open>"%0wd"\<close> for a non-negative integer.\<close>

definition zfill :: "nat \<Rightarrow> int \<Rightarrow> string" where
  "zfill w v = (let s = str_nat (nat v) in replicate (w - length s) (CHR ''0'') @ s)"

text \<open>\<^verbatim>\<open>",".join(row)\<close>\<close>

fun join_comma :: "string list \<Rightarrow> string" where
  "join_comma [] = []"
| "join_comma [f] = f"
| "join_comma (f # g # fs) = f @ CHR '','' # join_comma (g # fs)"

section \<open>The datetime type\<close>

text \<open>
  A naive \<^verbatim>\<open>datetime.datetime\<close>: seven integer fields. Two values compare as the tuples of
  their fields do, lexicographically.
\<close>

record datetime =
  dt_year :: int
  dt_month :: int
  dt_day :: int
  dt_hour :: int
  dt_minute :: int
  dt_second :: int
  dt_microsecond :: int

definition dt_tuple :: "datetime \<Rightarrow> int \<times> int \<times> int \<times> int \<times> int \<times> int \<times> int" where
  "dt_tuple t = (dt_year t, dt_month t, dt_day t, dt_hour t, dt_minute t, dt_second t,
     dt_microsecond t)"

definition dt_le :: "datetime \<Rightarrow> datetime \<Rightarrow> bool" where
  "dt_le a b = (dt_tuple a \<le> dt_tuple b)"

definition dt_less :: "datetime \<Rightarrow> datetime \<Rightarrow> bool" where
  "dt_less a b = (dt_tuple a < dt_tuple b)"

definition is_leap :: "int \<Rightarrow> bool" where
  "is_leap y = (y mod 4 = 0 \<and> (y mod 100 \<noteq> 0 \<or> y mod 400 = 0))"

definition days_in_month :: "int \<Rightarrow> int \<Rightarrow> int" where
  "days_in_month y m =
     (if m = 2 \<and> is_leap y then 29
      else if m = 2 then 28
      else if m = 4 \<or> m = 6 \<or> m = 9 \<or> m = 11 then 30
      else 31)"

text \<open>
  The arguments of the constructor are first converted to C integers (an argument that
  does not fit raises \<^verbatim>\<open>OverflowError\<close>), then checked field by field, year first; a field
  out of range raises \<^verbatim>\<open>ValueError\<close>. The microsecond is left at its default 0, as in
  every call of \<^verbatim>\<open>main.py\<close>.
\<close>

definition c_int :: "int \<Rightarrow> bool" where
  "c_int v = (- 2147483648 \<le> v \<and> v \<le> 2147483647)"

definition datetime_new :: "int \<Rightarrow> int \<Rightarrow> int \<Rightarrow> int \<Rightarrow> int \<Rightarrow> int \<Rightarrow> pyexc + datetime" where
  "datetime_new y m d hh mm ss =
     (if \<not> (c_int y \<and> c_int m \<and> c_int d \<and> c_int hh \<and> c_int mm \<and> c_int ss)
        then Inl OverflowError
      else if y < 1 \<or> 9999 < y then Inl ValueError
      else if m < 1 \<or> 12 < m then Inl ValueError
      else if d < 1 \<or> days_in_month y m < d then Inl ValueError
      else if hh < 0 \<or> 23 < hh then Inl ValueError
      else if mm < 0 \<or> 59 < mm then Inl ValueError
      else if ss < 0 \<or> 59 < ss then Inl ValueError
      else Inr \<lparr>dt_year = y, dt_month = m, dt_day = d, dt_hour = hh, dt_minute = mm,
        dt_second = ss, dt_microsecond = 0\<rparr>)"

text \<open>\<^verbatim>\<open>datetime.isoformat()\<close>: the fraction is printed only when it is not zero.\<close>

definition isoformat :: "datetime \<Rightarrow> string" where
  "isoformat t =
     zfill 4 (dt_year t) @ ''-'' @ zfill 2 (dt_month t) @ ''-'' @ zfill 2 (dt_day t) @ ''T''
     @ zfill 2 (dt_hour t) @ '':'' @ zfill 2 (dt_minute t) @ '':'' @ zfill 2 (dt_second t)
     @ (if dt_microsecond t \<noteq> 0 then ''.'' @ zfill 6 (dt_microsecond t) else [])"

section \<open>The stored entity and the table\<close>

text \<open>
  \<^verbatim>\<open>DroneReading\<close>, one row of the table \<^verbatim>\<open>drone_readings\<close>. The type \<open>'f\<close> stands for
  Python's \<^verbatim>\<open>float\<close>. The table is the list of its rows in insertion order; the column
  \<^verbatim>\<open>id\<close> is its primary key.
\<close>

record 'f DroneReading =
  reading_id :: string
  longitude :: 'f
  latitude :: 'f
  aqi :: 'f
  timestamp :: datetime
  raw_data :: "string option"

type_synonym 'f table = "'f DroneReading list"

section \<open>The query handler\<close>

text \<open>
  Lines 140 to 159 of \<^verbatim>\<open>get_readings\<close>: the bounds of the filter, \<open>None\<close> when no year is
  given. Every bound is built by the datetime constructor, which may raise.
\<close>

definition date_bounds ::
  "int option \<Rightarrow> int option \<Rightarrow> int option \<Rightarrow> pyexc + (datetime \<times> datetime) option" where
  "date_bounds year month day =
     (case year of
        None \<Rightarrow> Inr None
      | Some y \<Rightarrow>
         (case month of
            Some m \<Rightarrow>
              (case day of
                 Some d \<Rightarrow>
                   (case datetime_new y m d 0 0 0 of
                      Inl e \<Rightarrow> Inl e
                    | Inr start_date \<Rightarrow>
                       (case datetime_new y m d 23 59 59 of
                          Inl e \<Rightarrow> Inl e
                        | Inr end_date \<Rightarrow> Inr (Some (start_date, end_date))))
               | None \<Rightarrow>
                   (let (next_year, next_month) = (if m = 12 then (y + 1, 1) else (y, m + 1))
                    in case datetime_new y m 1 0 0 0 of
                         Inl e \<Rightarrow> Inl e
                       | Inr start_date \<Rightarrow>
                          (case datetime_new next_year next_month 1 0 0 0 of
                             Inl e \<Rightarrow> Inl e
                           | Inr end_date \<Rightarrow> Inr (Some (start_date, end_date)))))
          | None \<Rightarrow>
              (case datetime_new y 1 1 0 0 0 of
                 Inl e \<Rightarrow> Inl e
               | Inr start_date \<Rightarrow>
                  (case datetime_new (y + 1) 1 1 0 0 0 of
                     Inl e \<Rightarrow> Inl e
                   | Inr end_date \<Rightarrow> Inr (Some (start_date, end_date))))))"

text \<open>
  The statement \<^verbatim>\<open>select(DroneReading).order_by(timestamp.desc())\<close> with the optional
  \<^verbatim>\<open>where(timestamp >= start_date, timestamp < end_date)\<close>, run on the table. SQL leaves
  the order of rows with equal timestamps open; here the later inserted row comes first.
\<close>

definition in_bounds :: "(datetime \<times> datetime) option \<Rightarrow> 'f DroneReading \<Rightarrow> bool" where
  "in_bounds b r =
     (case b of
        None \<Rightarrow> True
      | Some (start_date, end_date) \<Rightarrow>
          dt_le start_date (timestamp r) \<and> dt_less (timestamp r) end_date)"

definition order_by_timestamp_desc :: "'f table \<Rightarrow> 'f DroneReading list" where
  "order_by_timestamp_desc rs = rev (sort_key (\<lambda>r. dt_tuple (timestamp r)) rs)"

definition execute_query :: "'f table \<Rightarrow> (datetime \<times> datetime) option \<Rightarrow> 'f DroneReading list" where
  "execute_query db b = order_by_timestamp_desc (filter (in_bounds b) db)"

text \<open>One element of the response of \<^verbatim>\<open>get_readings\<close>.\<close>

record 'f reading_out =
  out_longitude :: 'f
  out_latitude :: 'f
  out_aqi :: 'f
  out_timestamp :: string
  out_raw_data :: "string option"

definition serialize :: "'f DroneReading \<Rightarrow> 'f reading_out" where
  "serialize r = \<lparr>out_longitude = longitude r, out_latitude = latitude r, out_aqi = aqi r,
     out_timestamp = isoformat (timestamp r), out_raw_data = raw_data r\<rparr>"

text \<open>
  The rows that \<^verbatim>\<open>get_readings\<close> reads (lines 137 to 166), and the handler's body. No
  exception is caught in it.
\<close>

definition selected_readings ::
  "'f table \<Rightarrow> int option \<Rightarrow> int option \<Rightarrow> int option \<Rightarrow> failure + 'f DroneReading list" where
  "selected_readings db year month day =
     (case date_bounds year month day of
        Inl e \<Rightarrow> Inl (Unhandled e)
      | Inr b \<Rightarrow> Inr (execute_query db b))"

definition get_readings ::
  "'f table \<Rightarrow> int option \<Rightarrow> int option \<Rightarrow> int option \<Rightarrow> failure + 'f reading_out list" where
  "get_readings db year month day =
     (case selected_readings db year month day of
        Inl e \<Rightarrow> Inl e
      | Inr readings \<Rightarrow> if readings = [] then Inr [] else Inr (map serialize readings))"

section \<open>Example data\<close>

text \<open>A reading stored in the last second of 15 March 2024.\<close>

definition late_reading :: "real DroneReading" where
  "late_reading = \<lparr>reading_id = ''1710547199.0_1.0_2.0_0'', longitude = 1, latitude = 2,
     aqi = 50,
     timestamp = \<lparr>dt_year = 2024, dt_month = 3, dt_day = 15, dt_hour = 23, dt_minute = 59,
       dt_second = 59, dt_microsecond = 0\<rparr>,
     raw_data = Some ''1.0,2.0,50''\<rparr>"

text \<open>Midnight at the start of a day, and a reading stored on 15 December 9999.\<close>

definition midnight :: "int \<Rightarrow> int \<Rightarrow> int \<Rightarrow> datetime" where
  "midnight y m d = \<lparr>dt_year = y, dt_month = m, dt_day = d, dt_hour = 0, dt_minute = 0,
     dt_second = 0, dt_microsecond = 0\<rparr>"

definition december_reading :: "real DroneReading" where
  "december_reading = \<lparr>reading_id = ''253401300000.0_1.0_2.0_0'', longitude = 1, latitude = 2,
     aqi = 50,
     timestamp = \<lparr>dt_year = 9999, dt_month = 12, dt_day = 15, dt_hour = 10, dt_minute = 0,
       dt_second = 0, dt_microsecond = 0\<rparr>,
     raw_data = Some ''1.0,2.0,50''\<rparr>"

section \<open>Strings as Python splits them\<close>

text \<open>
  A Python \<^verbatim>\<open>str\<close> is modelled by \<open>string\<close>, which covers the code points below 256.
  \<^verbatim>\<open>s.split(',')\<close> cuts at every comma and never returns the empty list.
\<close>

definition LF :: char where "LF = CHR 0x0A"
definition CR :: char where "CR = CHR 0x0D"
definition comma :: char where "comma = CHR '',''"
definition quotechar :: char where "quotechar = CHR 0x22"

fun split_comma :: "string \<Rightarrow> string list" where
  "split_comma [] = [[]]"
| "split_comma (c # cs) =
     (if c = comma then [] # split_comma cs
      else (case split_comma cs of [] \<Rightarrow> [[c]] | f # fs \<Rightarrow> (c # f) # fs))"

text \<open>\<^verbatim>\<open>str.isspace\<close> on one character, and \<^verbatim>\<open>s.strip()\<close>.\<close>

definition isspace :: "char \<Rightarrow> bool" where
  "isspace c = (let n = (of_char c :: nat)
     in (9 \<le> n \<and> n \<le> 13) \<or> (28 \<le> n \<and> n \<le> 32) \<or> n = 133 \<or> n = 160)"

definition strip :: "string \<Rightarrow> string" where
  "strip s = rev (dropWhile isspace (rev (dropWhile isspace s)))"

text \<open>
  \<^verbatim>\<open>s.splitlines()\<close>: a line ends at LF, CR, CR LF, VT, FF, FS, GS, RS or NEL; the line
  ends are dropped and no empty last line is produced.
\<close>

definition is_linebreak :: "char \<Rightarrow> bool" where
  "is_linebreak c = (let n = (of_char c :: nat)
     in n = 10 \<or> n = 11 \<or> n = 12 \<or> n = 13 \<or> n = 28 \<or> n = 29 \<or> n = 30 \<or> n = 133)"

fun splitlines_from :: "string \<Rightarrow> string \<Rightarrow> string list" where
  "splitlines_from cur [] = (if cur = [] then [] else [cur])"
| "splitlines_from cur [c] = (if is_linebreak c then [cur] else [cur @ [c]])"
| "splitlines_from cur (c # d # ds) =
     (if c = CR \<and> d = LF then cur # splitlines_from [] ds
      else if is_linebreak c then cur # splitlines_from [] (d # ds)
      else splitlines_from (cur @ [c]) (d # ds))"

definition splitlines :: "string \<Rightarrow> string list" where
  "splitlines s = splitlines_from [] s"

text \<open>
  Iterating over \<^verbatim>\<open>StringIO(text)\<close>: the text is cut after every LF and each line keeps
  its LF; no other character ends a line.
\<close>

fun readlines :: "string \<Rightarrow> string list" where
  "readlines [] = []"
| "readlines (c # cs) =
     (if c = LF then [c] # readlines cs
      else (case readlines cs of [] \<Rightarrow> [[c]] | l # ls \<Rightarrow> (c # l) # ls))"

section \<open>The CSV reader\<close>

text \<open>
  \<^verbatim>\<open>csv.reader\<close> with its default dialect (delimiter comma, quote character the double
  quote, doubled quotes, no escape character, not strict), as the state machine of the
  module: a character or the end-of-line mark is fed to \<open>parse_process_char\<close>; adding a
  character to a field that has reached the field size limit raises \<^verbatim>\<open>csv.Error\<close>, and so
  does a character that follows a line end outside quotes.
\<close>

datatype ParserState =
  START_RECORD | START_FIELD | IN_FIELD | IN_QUOTED_FIELD | QUOTE_IN_QUOTED_FIELD | EAT_CRNL

datatype csv_input = Ch char | EOL

record ReaderObj =
  rd_state :: ParserState
  rd_fields :: "string list"
  rd_field :: string

definition field_limit :: nat where
  "field_limit = 131072"

definition parse_reset :: ReaderObj where
  "parse_reset = \<lparr>rd_state = START_RECORD, rd_fields = [], rd_field = []\<rparr>"

definition parse_save_field :: "ReaderObj \<Rightarrow> ReaderObj" where
  "parse_save_field self = self\<lparr>rd_fields := rd_fields self @ [rd_field self], rd_field := []\<rparr>"

definition parse_add_char :: "ReaderObj \<Rightarrow> char \<Rightarrow> pyexc + ReaderObj" where
  "parse_add_char self c =
     (if field_limit \<le> length (rd_field self) then Inl CsvError
      else Inr (self\<lparr>rd_field := rd_field self @ [c]\<rparr>))"

definition line_end :: "csv_input \<Rightarrow> bool" where
  "line_end c = (c = Ch LF \<or> c = Ch CR \<or> c = EOL)"

definition after_line_end :: "csv_input \<Rightarrow> ParserState" where
  "after_line_end c = (if c = EOL then START_RECORD else EAT_CRNL)"

definition start_field :: "ReaderObj \<Rightarrow> csv_input \<Rightarrow> pyexc + ReaderObj" where
  "start_field self c =
     (if line_end c then Inr ((parse_save_field self)\<lparr>rd_state := after_line_end c\<rparr>)
      else if c = Ch quotechar then Inr (self\<lparr>rd_state := IN_QUOTED_FIELD\<rparr>)
      else if c = Ch comma then Inr (parse_save_field self)
      else (case c of
              Ch x \<Rightarrow> (case parse_add_char self x of
                          Inl e \<Rightarrow> Inl e
                        | Inr self' \<Rightarrow> Inr (self'\<lparr>rd_state := IN_FIELD\<rparr>))
            | EOL \<Rightarrow> Inr self))"

fun parse_process_char :: "ReaderObj \<Rightarrow> csv_input \<Rightarrow> pyexc + ReaderObj" where
  "parse_process_char self c =
     (case rd_state self of
        START_RECORD \<Rightarrow>
          (if c = EOL then Inr self
           else if c = Ch LF \<or> c = Ch CR then Inr (self\<lparr>rd_state := EAT_CRNL\<rparr>)
           else start_field (self\<lparr>rd_state := START_FIELD\<rparr>) c)
      | START_FIELD \<Rightarrow> start_field self c
      | IN_FIELD \<Rightarrow>
          (if line_end c then Inr ((parse_save_field self)\<lparr>rd_state := after_line_end c\<rparr>)
           else if c = Ch comma then Inr ((parse_save_field self)\<lparr>rd_state := START_FIELD\<rparr>)
           else (case c of Ch x \<Rightarrow> parse_add_char self x | EOL \<Rightarrow> Inr self))
      | IN_QUOTED_FIELD \<Rightarrow>
          (if c = EOL then Inr self
           else if c = Ch quotechar then Inr (self\<lparr>rd_state := QUOTE_IN_QUOTED_FIELD\<rparr>)
           else (case c of Ch x \<Rightarrow> parse_add_char self x | EOL \<Rightarrow> Inr self))
      | QUOTE_IN_QUOTED_FIELD \<Rightarrow>
          (if c = Ch quotechar then
             (case parse_add_char self quotechar of
                Inl e \<Rightarrow> Inl e
              | Inr self' \<Rightarrow> Inr (self'\<lparr>rd_state := IN_QUOTED_FIELD\<rparr>))
           else if c = Ch comma then Inr ((parse_save_field self)\<lparr>rd_state := START_FIELD\<rparr>)
           else if line_end c then Inr ((parse_save_field self)\<lparr>rd_state := after_line_end c\<rparr>)
           else (case c of
                   Ch x \<Rightarrow> (case parse_add_char self x of
                               Inl e \<Rightarrow> Inl e
                             | Inr self' \<Rightarrow> Inr (self'\<lparr>rd_state := IN_FIELD\<rparr>))
                 | EOL \<Rightarrow> Inr self))
      | EAT_CRNL \<Rightarrow>
          (if c = Ch LF \<or> c = Ch CR then Inr self
           else if c = EOL then Inr (self\<lparr>rd_state := START_RECORD\<rparr>)
           else Inl CsvError))"

declare parse_process_char.simps [simp del]

text \<open>One line of input: its characters, then the end-of-line mark.\<close>

fun process_line :: "ReaderObj \<Rightarrow> string \<Rightarrow> pyexc + ReaderObj" where
  "process_line self [] = parse_process_char self EOL"
| "process_line self (c # cs) =
     (case parse_process_char self (Ch c) of
        Inl e \<Rightarrow> Inl e
      | Inr self' \<Rightarrow> process_line self' cs)"

text \<open>
  The rows that iterating over the reader yields. A record is complete when a line
  leaves the parser in \<open>START_RECORD\<close>; otherwise the next line continues it. At the end
  of the input an unfinished record is yielded if a field is under way or a quote is open.
\<close>

fun reader_rows :: "ReaderObj \<Rightarrow> string list \<Rightarrow> pyexc + string list list" where
  "reader_rows self [] =
     (if rd_field self \<noteq> [] \<or> rd_state self = IN_QUOTED_FIELD
      then Inr [rd_fields (parse_save_field self)] else Inr [])"
| "reader_rows self (l # ls) =
     (case process_line self l of
        Inl e \<Rightarrow> Inl e
      | Inr self' \<Rightarrow>
          if rd_state self' \<noteq> START_RECORD then reader_rows self' ls
          else (case reader_rows parse_reset ls of
                  Inl e \<Rightarrow> Inl e
                | Inr rows \<Rightarrow> Inr (rd_fields self' # rows)))"

definition csv_reader :: "string \<Rightarrow> pyexc + string list list" where
  "csv_reader text_content = reader_rows parse_reset (readlines text_content)"

section \<open>The environment of a request\<close>

text \<open>
  What the handlers take from Python and from the outside world: \<^verbatim>\<open>float(s)\<close> on a
  string (\<open>None\<close> is its \<^verbatim>\<open>ValueError\<close>), the text that an f-string prints for a float,
  \<^verbatim>\<open>datetime.timestamp()\<close>, and the clock, given as the value of the k-th call of
  \<^verbatim>\<open>datetime.utcnow()\<close> within the request; and \<^verbatim>\<open>math.isfinite\<close>, which is false
  for nan and the two infinities.
\<close>

record 'f pyenv =
  py_float :: "string \<Rightarrow> 'f option"
  format_float :: "'f \<Rightarrow> string"
  posix_timestamp :: "datetime \<Rightarrow> 'f"
  utcnow :: "nat \<Rightarrow> datetime"
  isfinite :: "'f \<Rightarrow> bool"

section \<open>Authentication\<close>

text \<open>\<^verbatim>\<open>get_api_keys\<close> on the value of the environment variable \<^verbatim>\<open>API_KEYS\<close>.\<close>

definition get_api_keys :: "string \<Rightarrow> string set" where
  "get_api_keys api_keys_str = set (map strip (split_comma api_keys_str))"

text \<open>
  \<^verbatim>\<open>api_key_header = APIKeyHeader(name="X-API-Key")\<close>, the security scheme that
  \<^verbatim>\<open>verify_api_key\<close> depends on: it reads the header of the request and, when the header
  is missing or empty, raises its own \<^verbatim>\<open>HTTPException\<close> ("Not authenticated", status 401
  in the current releases of the framework) before \<^verbatim>\<open>verify_api_key\<close> is called.
\<close>

definition api_key_header :: "string option \<Rightarrow> failure + string" where
  "api_key_header header =
     (case header of
        None \<Rightarrow> Inl (HTTPException 401)
      | Some api_key \<Rightarrow> if api_key = [] then Inl (HTTPException 401) else Inr api_key)"

definition verify_api_key :: "string set \<Rightarrow> string \<Rightarrow> failure + string" where
  "verify_api_key API_KEYS api_key =
     (if api_key \<notin> API_KEYS then Inl (HTTPException 403) else Inr api_key)"

section \<open>The upload handler\<close>

text \<open>
  The loop of \<^verbatim>\<open>upload_data\<close> (lines 98 to 116) over the rows of the reader: \<open>idx\<close> counts
  every row, \<open>k\<close> counts the calls of the clock, which is read only after the three fields
  of a row have been converted.
\<close>

definition new_reading ::
  "'f pyenv \<Rightarrow> nat \<Rightarrow> nat \<Rightarrow> string list \<Rightarrow> 'f \<Rightarrow> 'f \<Rightarrow> 'f \<Rightarrow> 'f DroneReading" where
  "new_reading env idx k row lon lat a =
     (let current_time = utcnow env k
      in \<lparr>reading_id = format_float env (posix_timestamp env current_time) @ ''_''
             @ format_float env lon @ ''_'' @ format_float env lat @ ''_'' @ str_nat idx,
           longitude = lon, latitude = lat, aqi = a, timestamp = current_time,
           raw_data = Some (join_comma row)\<rparr>)"

fun row_floats :: "'f pyenv \<Rightarrow> string list \<Rightarrow> ('f \<times> 'f \<times> 'f) option" where
  "row_floats env [f0, f1, f2] =
     (case py_float env f0 of
        None \<Rightarrow> None
      | Some lon \<Rightarrow>
         (case py_float env f1 of
            None \<Rightarrow> None
          | Some lat \<Rightarrow>
             (case py_float env f2 of
                None \<Rightarrow> None
              | Some a \<Rightarrow> Some (lon, lat, a))))"
| "row_floats env row = None"

fun collect_readings ::
  "'f pyenv \<Rightarrow> nat \<Rightarrow> nat \<Rightarrow> string list list \<Rightarrow> 'f DroneReading list" where
  "collect_readings env idx k [] = []"
| "collect_readings env idx k (row # rows) =
     (if length row \<noteq> 3 then collect_readings env (idx + 1) k rows
      else (case row_floats env row of
              None \<Rightarrow> collect_readings env (idx + 1) k rows
            | Some (lon, lat, a) \<Rightarrow>
                new_reading env idx k row lon lat a # collect_readings env (idx + 1) (k + 1) rows))"

text \<open>
  \<^verbatim>\<open>upload_data\<close> below takes the decoded text of the uploaded file.
  \<^verbatim>\<open>db.add_all(readings)\<close> and \<^verbatim>\<open>db.commit()\<close>: the rows are inserted in one transaction;
  the primary key \<^verbatim>\<open>id\<close> rejects the whole batch when an id occurs twice.
\<close>

definition add_all_commit :: "'f table \<Rightarrow> 'f DroneReading list \<Rightarrow> pyexc + 'f table" where
  "add_all_commit db readings =
     (if distinct (map reading_id readings)
         \<and> (\<forall>r \<in> set readings. reading_id r \<notin> set (map reading_id db))
      then Inr (db @ readings) else Inl IntegrityError)"

definition upload_message :: "nat \<Rightarrow> string" where
  "upload_message n = ''Successfully uploaded '' @ str_nat n @ '' readings''"

definition upload_data :: "'f pyenv \<Rightarrow> 'f table \<Rightarrow> string \<Rightarrow> (failure + string) \<times> 'f table" where
  "upload_data env db text_content =
     (case csv_reader text_content of
        Inl e \<Rightarrow> (Inl (Unhandled e), db)
      | Inr rows \<Rightarrow>
          (let readings = collect_readings env 0 0 rows
           in case add_all_commit db readings of
                Inl e \<Rightarrow> (Inl (Unhandled e), db)
              | Inr db' \<Rightarrow> (Inr (upload_message (length readings)), db')))"

section \<open>The file handler\<close>

record 'f file_reading =
  file_longitude :: 'f
  file_latitude :: 'f
  file_aqi :: 'f
  file_timestamp :: string

text \<open>
  One pass of the loop of \<^verbatim>\<open>get_file_data\<close>: unpacking the split line into four names
  raises \<^verbatim>\<open>ValueError\<close> unless it has exactly four fields, and so does \<^verbatim>\<open>float\<close>.
\<close>

definition file_line :: "'f pyenv \<Rightarrow> string \<Rightarrow> pyexc + 'f file_reading" where
  "file_line env line =
     (case split_comma (strip line) of
        [lon, lat, a, ts] \<Rightarrow>
          (case py_float env lon of
             None \<Rightarrow> Inl ValueError
           | Some x \<Rightarrow>
              (case py_float env lat of
                 None \<Rightarrow> Inl ValueError
               | Some y \<Rightarrow>
                  (case py_float env a of
                     None \<Rightarrow> Inl ValueError
                   | Some z \<Rightarrow> Inr \<lparr>file_longitude = x, file_latitude = y, file_aqi = z,
                       file_timestamp = ts\<rparr>)))
      | _ \<Rightarrow> Inl ValueError)"

fun file_lines :: "'f pyenv \<Rightarrow> string list \<Rightarrow> pyexc + 'f file_reading list" where
  "file_lines env [] = Inr []"
| "file_lines env (line # ls) =
     (case file_line env line of
        Inl e \<Rightarrow> Inl e
      | Inr r \<Rightarrow> (case file_lines env ls of Inl e \<Rightarrow> Inl e | Inr rs \<Rightarrow> Inr (r # rs)))"

text \<open>
  The files under the data directory are a map from the path of each readable file to
  the text that reading it returns. \<^verbatim>\<open>file_path.exists()\<close> asks the operating system for
  the file: it is true for a file that is there; for a name that is not there it is
  false, also when the path holds a NUL character, but it raises \<^verbatim>\<open>OSError\<close> when the
  name \<^verbatim>\<open><date>.csv\<close> is longer than 255 bytes or the path longer than 4095 bytes (no
  file system holds such a name). \<open>get_file_data_try\<close> is the body of the \<^verbatim>\<open>try\<close>; the
  \<^verbatim>\<open>except ValueError\<close> clause turns a \<^verbatim>\<open>ValueError\<close>, and nothing else, into status 400.
\<close>

definition file_path :: "string \<Rightarrow> string \<Rightarrow> string" where
  "file_path DATA_DIR date = DATA_DIR @ ''/'' @ date @ ''.csv''"

definition utf8_length :: "string \<Rightarrow> nat" where
  "utf8_length s = sum_list (map (\<lambda>c. if (of_char c :: nat) < 128 then 1 else 2) s)"

definition NAME_MAX :: nat where "NAME_MAX = 255"
definition PATH_MAX :: nat where "PATH_MAX = 4096"

definition name_too_long :: "string \<Rightarrow> string \<Rightarrow> bool" where
  "name_too_long DATA_DIR date =
     (NAME_MAX < utf8_length (date @ ''.csv'')
      \<or> PATH_MAX \<le> utf8_length (file_path DATA_DIR date))"

definition path_exists :: "(string \<rightharpoonup> string) \<Rightarrow> string \<Rightarrow> string \<Rightarrow> pyexc + bool" where
  "path_exists files DATA_DIR date =
     (case files (file_path DATA_DIR date) of
        Some content \<Rightarrow> Inr True
      | None \<Rightarrow>
          if CHR 0x00 \<in> set (file_path DATA_DIR date) then Inr False
          else if name_too_long DATA_DIR date then Inl OSError
          else Inr False)"

definition get_file_data_try ::
  "'f pyenv \<Rightarrow> string \<Rightarrow> (string \<rightharpoonup> string) \<Rightarrow> string \<Rightarrow> failure + 'f file_reading list" where
  "get_file_data_try env DATA_DIR files date =
     (case path_exists files DATA_DIR date of
        Inl e \<Rightarrow> Inl (Unhandled e)
      | Inr False \<Rightarrow> Inl (HTTPException 404)
      | Inr True \<Rightarrow>
          (case files (file_path DATA_DIR date) of
             None \<Rightarrow> Inl (Unhandled OSError)
           | Some content \<Rightarrow>
               (case file_lines env (splitlines content) of
                  Inl e \<Rightarrow> Inl (Unhandled e)
                | Inr readings \<Rightarrow> Inr readings)))"

definition get_file_data ::
  "'f pyenv \<Rightarrow> string \<Rightarrow> (string \<rightharpoonup> string) \<Rightarrow> string \<Rightarrow> failure + 'f file_reading list" where
  "get_file_data env DATA_DIR files date =
     (case get_file_data_try env DATA_DIR files date of
        Inl (Unhandled ValueError) \<Rightarrow> Inl (HTTPException 400)
      | Inl e \<Rightarrow> Inl e
      | Inr readings \<Rightarrow> Inr readings)"

section \<open>The three endpoints\<close>

text \<open>
  \<^verbatim>\<open>/files/{date}\<close> declares no response model: the list that the handler returns is
  rendered by \<^verbatim>\<open>json.dumps\<close> with \<^verbatim>\<open>allow_nan=False\<close>, which raises \<^verbatim>\<open>ValueError\<close> on nan
  and on the infinities. The handler has returned by then, so its \<^verbatim>\<open>except\<close> clause does
  not see this exception.
\<close>

definition render_file_readings ::
  "'f pyenv \<Rightarrow> 'f file_reading list \<Rightarrow> pyexc + 'f file_reading list" where
  "render_file_readings env readings =
     (if \<forall>r \<in> set readings. isfinite env (file_longitude r) \<and> isfinite env (file_latitude r)
           \<and> isfinite env (file_aqi r)
      then Inr readings else Inl ValueError)"

text \<open>
  Every route declares \<^verbatim>\<open>Depends(verify_api_key)\<close>, and \<^verbatim>\<open>verify_api_key\<close> takes its
  argument from \<^verbatim>\<open>Security(api_key_header)\<close>: the framework runs the scheme, then the
  dependency, then the handler, and answers with the first exception raised. A request
  carries the header \<^verbatim>\<open>X-API-Key\<close>, if any; the state is the table.
\<close>

datatype request =
  Upload string
| Readings "int option" "int option" "int option"
| Files string

datatype 'f response =
  Message string
| ReadingList "'f reading_out list"
| FileList "'f file_reading list"

record 'f server =
  srv_API_KEYS :: "string set"
  srv_DATA_DIR :: string
  srv_files :: "string \<rightharpoonup> string"
  srv_env :: "'f pyenv"

fun handler :: "'f server \<Rightarrow> request \<Rightarrow> 'f table \<Rightarrow> (failure + 'f response) \<times> 'f table" where
  "handler srv (Upload text_content) db =
     (case upload_data (srv_env srv) db text_content of
        (Inl e, db') \<Rightarrow> (Inl e, db')
      | (Inr m, db') \<Rightarrow> (Inr (Message m), db'))"
| "handler srv (Readings year month day) db =
     (case get_readings db year month day of
        Inl e \<Rightarrow> (Inl e, db)
      | Inr out \<Rightarrow> (Inr (ReadingList out), db))"
| "handler srv (Files date) db =
     (case get_file_data (srv_env srv) (srv_DATA_DIR srv) (srv_files srv) date of
        Inl e \<Rightarrow> (Inl e, db)
      | Inr readings \<Rightarrow>
          (case render_file_readings (srv_env srv) readings of
             Inl e \<Rightarrow> (Inl (Unhandled e), db)
           | Inr out \<Rightarrow> (Inr (FileList out), db)))"

definition endpoint ::
  "'f server \<Rightarrow> string option \<Rightarrow> request \<Rightarrow> 'f table \<Rightarrow> (failure + 'f response) \<times> 'f table"
  where
  "endpoint srv header req db =
     (case api_key_header header of
        Inl e \<Rightarrow> (Inl e, db)
      | Inr api_key \<Rightarrow>
          (case verify_api_key (srv_API_KEYS srv) api_key of
             Inl e \<Rightarrow> (Inl e, db)
           | Inr key \<Rightarrow> handler srv req db))"

section \<open>An example server\<close>

text \<open>
  A table of \<^verbatim>\<open>float\<close> on the strings of the examples, a clock that advances by one
  microsecond per call, and a server with one key and two files, the second of which has
  a line of three fields.
\<close>

definition example_float :: "string \<Rightarrow> real option" where
  "example_float = map_of [(''1.0'', 1), (''2.0'', 2), (''50'', 50), (''3.0'', 3), (''4.0'', 4),
     (''75'', 75)]"

definition example_format :: "real \<Rightarrow> string" where
  "example_format x =
     (if x = 1 then ''1.0'' else if x = 2 then ''2.0'' else if x = 3 then ''3.0''
      else if x = 4 then ''4.0'' else if x = 50 then ''50.0'' else if x = 75 then ''75.0''
      else ''1710504000.0'')"

definition example_env :: "real pyenv" where
  "example_env = \<lparr>py_float = example_float, format_float = example_format,
     posix_timestamp = (\<lambda>t. 1710504000),
     utcnow = (\<lambda>k. \<lparr>dt_year = 2024, dt_month = 3, dt_day = 15, dt_hour = 12, dt_minute = 0,
       dt_second = 0, dt_microsecond = int k\<rparr>),
     isfinite = (\<lambda>x. True)\<rparr>"

definition example_server :: "real server" where
  "example_server = \<lparr>srv_API_KEYS = {''secret''}, srv_DATA_DIR = ''data'',
     srv_files =
       [''data/2024-03-15.csv'' \<mapsto>
          ''1.0,2.0,50,2024-03-15T12:00:00'' @ [LF] @ ''3.0,4.0,75,noon'',
        ''data/2024-03-16.csv'' \<mapsto>
          ''1.0,2.0,50,2024-03-15T12:00:00'' @ [LF] @ ''3.0,4.0,75''],
     srv_env = example_env\<rparr>"

text \<open>
  Floats that may be nan or infinite, and a server whose only file holds a nan: the table
  of \<^verbatim>\<open>float\<close> has the entry for \<^verbatim>\<open>"nan"\<close>. The key set is the one that \<^verbatim>\<open>get_api_keys\<close>
  makes of \<^verbatim>\<open>API_KEYS=a,,b\<close>.
\<close>

datatype float_value = Finite real | NaN | PosInf | NegInf

definition nan_env :: "float_value pyenv" where
  "nan_env = \<lparr>py_float = map_of [(''nan'', NaN), (''2.0'', Finite 2), (''50'', Finite 50)],
     format_float = (\<lambda>x. case x of NaN \<Rightarrow> ''nan'' | PosInf \<Rightarrow> ''inf'' | NegInf \<Rightarrow> ''-inf''
        | Finite v \<Rightarrow> example_format v),
     posix_timestamp = (\<lambda>t. Finite 1710504000),
     utcnow = utcnow example_env,
     isfinite = (\<lambda>x. case x of Finite v \<Rightarrow> True | _ \<Rightarrow> False)\<rparr>"

definition nan_server :: "float_value server" where
  "nan_server = \<lparr>srv_API_KEYS = get_api_keys ''a,,b'', srv_DATA_DIR = ''data'',
     srv_files = [''data/2024-03-17.csv'' \<mapsto> ''nan,2.0,50,noon''],
     srv_env = nan_env\<rparr>"

text \<open>A reading stored at noon of 15 March 2024.\<close>

definition noon_reading :: "real DroneReading" where
  "noon_reading = \<lparr>reading_id = ''1710504000.0_3.0_4.0_0'', longitude = 3, latitude = 4,
     aqi = 75,
     timestamp = \<lparr>dt_year = 2024, dt_month = 3, dt_day = 15, dt_hour = 12, dt_minute = 0,
       dt_second = 0, dt_microsecond = 250\<rparr>,
     raw_data = Some ''3.0,4.0,75''\<rparr>"

section \<open>The datetime constructor\<close>

lemma datetime_new_bad_month:
  "m < 1 \<or> 12 < m \<Longrightarrow> \<exists>e. datetime_new y m d hh mm ss = Inl e"
  by (auto simp: datetime_new_def)

lemma datetime_new_bad_day:
  "d < 1 \<or> days_in_month y m < d \<Longrightarrow> \<exists>e. datetime_new y m d hh mm ss = Inl e"
  by (auto simp: datetime_new_def)

section \<open>The day filter\<close>

text \<open>
  C1. The claim: a query for year, month and day returns a reading stored at exactly
  23:59:59 of that day. The code compares with \<open>timestamp < end_date\<close>, where
  \<open>end_date\<close> is 23:59:59 of the day, so that reading is left out: the table holding only
  \<open>late_reading\<close>, queried for 15 March 2024, yields the empty list.
\<close>

theorem day_query_drops_last_second:
  "get_readings [late_reading] (Some 2024) (Some 3) (Some 15) = Inr []"
  by (simp add: get_readings_def selected_readings_def date_bounds_def datetime_new_def c_int_def
      days_in_month_def is_leap_def execute_query_def order_by_timestamp_desc_def in_bounds_def
      dt_le_def dt_less_def dt_tuple_def late_reading_def)

section \<open>Dates outside the calendar\<close>

text \<open>
  C10, as stated, at its failing input. The claim speaks of every query in which the year
  is present and the month or the day is outside the calendar. When the month is absent
  the day is not read at all: year 2024 with day 99 and no month is the filter of the
  whole year, and on the empty table the answer is the empty list, not an error.
\<close>

theorem day_without_month_is_ignored:
  "(31 :: int) < 99
   \<and> get_readings ([] :: real table) (Some 2024) None (Some 99) = Inr []"
  by (simp add: get_readings_def selected_readings_def date_bounds_def datetime_new_def c_int_def
      days_in_month_def is_leap_def execute_query_def order_by_timestamp_desc_def)

text \<open>
  C10, amended. When year and month are both given and the month is not in 1..12, or a day
  is given as well that is not a day of that month, the datetime constructor raises while
  the bounds are built; \<open>get_readings\<close> catches nothing, so the request ends in an
  unhandled exception, which is status 500, and neither in an empty result nor in a 4xx
  answer.
\<close>

theorem get_readings_invalid_date_unhandled:
  assumes "m < 1 \<or> 12 < m \<or> (\<exists>d. day = Some d \<and> (d < 1 \<or> days_in_month y m < d))"
  shows "\<exists>e. get_readings db (Some y) (Some m) day = Inl (Unhandled e)
           \<and> status_code (Unhandled e) = 500"
proof (cases day)
  case None
  with assms have bad: "m < 1 \<or> 12 < m" by auto
  obtain e where "datetime_new y m 1 0 0 0 = Inl e"
    using datetime_new_bad_month [OF bad] by blast
  then show ?thesis
    using None
    by (simp add: get_readings_def selected_readings_def date_bounds_def split: prod.splits)
next
  case (Some d)
  with assms have "m < 1 \<or> 12 < m \<or> d < 1 \<or> days_in_month y m < d" by auto
  then obtain e where "datetime_new y m d 0 0 0 = Inl e"
    using datetime_new_bad_month [of m y d 0 0 0] datetime_new_bad_day [of d y m 0 0 0]
    by blast
  then show ?thesis
    using Some by (simp add: get_readings_def selected_readings_def date_bounds_def)
qed

theorem get_readings_invalid_date_unhandled_witness:
  "\<exists>e. get_readings ([] :: real table) (Some 2024) (Some 13) None = Inl (Unhandled e)
     \<and> status_code (Unhandled e) = 500"
  using get_readings_invalid_date_unhandled [of 13 None 2024 "[]"] by simp

lemma april_31_raises_ValueError:
  "days_in_month 2024 4 < 31 \<and>
   get_readings ([] :: real table) (Some 2024) (Some 4) (Some 31) = Inl (Unhandled ValueError)"
  by (simp add: get_readings_def selected_readings_def date_bounds_def datetime_new_def c_int_def
      days_in_month_def is_leap_def)

section \<open>The month filter\<close>

lemma datetime_new_first:
  "1 \<le> y \<Longrightarrow> y \<le> 9999 \<Longrightarrow> 1 \<le> m \<Longrightarrow> m \<le> 12 \<Longrightarrow>
   datetime_new y m 1 0 0 0 = Inr (midnight y m 1)"
  by (simp add: datetime_new_def c_int_def days_in_month_def midnight_def)

lemma month_bounds:
  assumes "1 \<le> y" "y \<le> 9999" "1 \<le> m" "m \<le> 12" "m = 12 \<longrightarrow> y < 9999"
  shows "date_bounds (Some y) (Some m) None =
     Inr (Some (midnight y m 1, if m = 12 then midnight (y + 1) 1 1 else midnight y (m + 1) 1))"
proof (cases "m = 12")
  case True
  with assms have "datetime_new (y + 1) 1 1 0 0 0 = Inr (midnight (y + 1) 1 1)"
    by (intro datetime_new_first) auto
  with True assms show ?thesis
    by (simp add: date_bounds_def datetime_new_first)
next
  case False
  with assms have "datetime_new y (m + 1) 1 0 0 0 = Inr (midnight y (m + 1) 1)"
    by (intro datetime_new_first) auto
  with False assms show ?thesis
    by (simp add: date_bounds_def datetime_new_first)
qed

lemma sorted_order_by_timestamp_desc:
  "sorted_wrt (\<lambda>a b. dt_le (timestamp b) (timestamp a)) (order_by_timestamp_desc rs)"
proof -
  have "sorted (map (\<lambda>r. dt_tuple (timestamp r)) (sort_key (\<lambda>r. dt_tuple (timestamp r)) rs))"
    by (rule sorted_sort_key)
  then have "sorted_wrt (\<lambda>a b. dt_tuple (timestamp a) \<le> dt_tuple (timestamp b))
      (sort_key (\<lambda>r. dt_tuple (timestamp r)) rs)"
    by (simp add: sorted_map)
  then show ?thesis
    by (simp add: order_by_timestamp_desc_def sorted_wrt_rev dt_le_def)
qed

lemma mset_order_by_timestamp_desc: "mset (order_by_timestamp_desc rs) = mset rs"
  by (simp add: order_by_timestamp_desc_def)

text \<open>
  C3, as stated, at its failing input. December 9999 is a month of the calendar, and
  \<open>december_reading\<close> lies in the window from 1 December 9999 to 1 January 10000; but
  the upper bound is built as \<open>datetime(year + 1, 1, 1)\<close>, the type has no year 10000, and
  the request ends in an unhandled \<open>ValueError\<close> instead of returning the reading.
\<close>

theorem december_9999_query_raises:
  "dt_le (midnight 9999 12 1) (timestamp december_reading) \<and>
   dt_less (timestamp december_reading) (midnight 10000 1 1) \<and>
   get_readings [december_reading] (Some 9999) (Some 12) None = Inl (Unhandled ValueError)"
  by (simp add: get_readings_def selected_readings_def date_bounds_def datetime_new_def c_int_def
      days_in_month_def is_leap_def dt_le_def dt_less_def dt_tuple_def december_reading_def
      midnight_def)

text \<open>
  C3, amended. For a year in 1..9999 and a month in 1..12, December 9999 excepted, a query
  with year and month and no day returns, newest first, exactly the stored readings whose
  timestamp lies in the half-open window from the first of the month at 00:00:00 to the
  first of the next month at 00:00:00; for month 12 the upper bound is 1 January of the
  next year.
\<close>

theorem month_query_window:
  assumes "1 \<le> y" "y \<le> 9999" "1 \<le> m" "m \<le> 12" "m = 12 \<longrightarrow> y < 9999"
  shows "\<exists>rs. get_readings db (Some y) (Some m) None = Inr (map serialize rs)
     \<and> sorted_wrt (\<lambda>a b. dt_le (timestamp b) (timestamp a)) rs
     \<and> mset rs = mset (filter (\<lambda>r. dt_le (midnight y m 1) (timestamp r)
          \<and> dt_less (timestamp r)
               (if m = 12 then midnight (y + 1) 1 1 else midnight y (m + 1) 1)) db)"
proof -
  let ?b = "Some (midnight y m 1, if m = 12 then midnight (y + 1) 1 1 else midnight y (m + 1) 1)"
  let ?rs = "execute_query db ?b"
  have "get_readings db (Some y) (Some m) None = Inr (map serialize ?rs)"
    using month_bounds [OF assms] by (simp add: get_readings_def selected_readings_def)
  moreover have "sorted_wrt (\<lambda>a b. dt_le (timestamp b) (timestamp a)) ?rs"
    unfolding execute_query_def by (rule sorted_order_by_timestamp_desc)
  moreover have "mset ?rs = mset (filter (\<lambda>r. dt_le (midnight y m 1) (timestamp r)
          \<and> dt_less (timestamp r)
               (if m = 12 then midnight (y + 1) 1 1 else midnight y (m + 1) 1)) db)"
    unfolding execute_query_def mset_order_by_timestamp_desc in_bounds_def by simp
  ultimately show ?thesis by blast
qed

theorem month_query_window_witness:
  "\<exists>rs. get_readings [late_reading] (Some 2024) (Some 12) None = Inr (map serialize rs)
     \<and> sorted_wrt (\<lambda>a b. dt_le (timestamp b) (timestamp a)) rs
     \<and> mset rs = mset (filter (\<lambda>r. dt_le (midnight 2024 12 1) (timestamp r)
          \<and> dt_less (timestamp r) (midnight 2025 1 1)) [late_reading])"
  using month_query_window [of 2024 12 "[late_reading]"] by simp

section \<open>Order of the result\<close>

lemma date_bounds_no_year: "date_bounds None month day = Inr None"
  by (simp add: date_bounds_def)

lemma datetime_new_day:
  "1 \<le> y \<Longrightarrow> y \<le> 9999 \<Longrightarrow> 1 \<le> m \<Longrightarrow> m \<le> 12 \<Longrightarrow> 1 \<le> d \<Longrightarrow> d \<le> days_in_month y m \<Longrightarrow>
   0 \<le> hh \<Longrightarrow> hh \<le> 23 \<Longrightarrow> 0 \<le> mm \<Longrightarrow> mm \<le> 59 \<Longrightarrow> 0 \<le> ss \<Longrightarrow> ss \<le> 59 \<Longrightarrow>
   \<exists>t. datetime_new y m d hh mm ss = Inr t"
  by (simp add: datetime_new_def c_int_def days_in_month_def split: if_splits)

text \<open>The queries whose bounds the datetime constructor accepts.\<close>

lemma date_bounds_defined:
  assumes "case year of
             None \<Rightarrow> True
           | Some y \<Rightarrow> 1 \<le> y \<and> y \<le> 9999
               \<and> (case month of
                     None \<Rightarrow> y \<le> 9998
                   | Some m \<Rightarrow> 1 \<le> m \<and> m \<le> 12
                       \<and> (case day of
                             None \<Rightarrow> m = 12 \<longrightarrow> y \<le> 9998
                           | Some d \<Rightarrow> 1 \<le> d \<and> d \<le> days_in_month y m))"
  shows "\<exists>b. date_bounds year month day = Inr b"
proof (cases year)
  case None
  then show ?thesis by (simp add: date_bounds_no_year)
next
  case y: (Some y)
  with assms have yr: "1 \<le> y" "y \<le> 9999" by simp_all
  show ?thesis
  proof (cases month)
    case None
    with assms y have "y \<le> 9998" by simp
    with yr have "datetime_new (y + 1) 1 1 0 0 0 = Inr (midnight (y + 1) 1 1)"
      by (intro datetime_new_first) simp_all
    with yr y None show ?thesis by (simp add: date_bounds_def datetime_new_first)
  next
    case m: (Some m)
    with assms y have mo: "1 \<le> m" "m \<le> 12" by simp_all
    show ?thesis
    proof (cases day)
      case None
      with assms y m have "m = 12 \<longrightarrow> y < 9999" by auto
      from month_bounds [OF yr mo this] show ?thesis using y m None by simp
    next
      case (Some d)
      with assms y m have d: "1 \<le> d" "d \<le> days_in_month y m" by simp_all
      obtain t where t: "datetime_new y m d 0 0 0 = Inr t"
        using datetime_new_day [OF yr mo d, of 0 0 0] by auto
      obtain t' where t': "datetime_new y m d 23 59 59 = Inr t'"
        using datetime_new_day [OF yr mo d, of 23 59 59] by auto
      from t t' show ?thesis using y m Some by (simp add: date_bounds_def)
    qed
  qed
qed

text \<open>
  C4, as stated, at its failing input. The table is empty, so no reading matches the query
  for year 9999; but the upper bound of the year filter is \<open>datetime(year + 1, 1, 1)\<close>, which
  the constructor refuses, and the request ends in an unhandled \<open>ValueError\<close> instead of
  the empty list.
\<close>

theorem year_9999_query_raises:
  "get_readings ([] :: real table) (Some 9999) None None = Inl (Unhandled ValueError)"
  by (simp add: get_readings_def selected_readings_def date_bounds_def datetime_new_def c_int_def
      days_in_month_def is_leap_def)

text \<open>
  C4, amended. For every query whose bounds the datetime constructor accepts (no year; or
  a year in 1..9998 alone; or a year in 1..9999 with a month in 1..12, December 9999
  excepted; or a year in 1..9999, a month in 1..12 and a day of that month),
  \<open>get_readings\<close> returns the serialization of the matching readings in descending order
  of timestamp, and when no stored reading matches it returns the empty list and no error.
\<close>

theorem get_readings_newest_first:
  assumes "case year of
             None \<Rightarrow> True
           | Some y \<Rightarrow> 1 \<le> y \<and> y \<le> 9999
               \<and> (case month of
                     None \<Rightarrow> y \<le> 9998
                   | Some m \<Rightarrow> 1 \<le> m \<and> m \<le> 12
                       \<and> (case day of
                             None \<Rightarrow> m = 12 \<longrightarrow> y \<le> 9998
                           | Some d \<Rightarrow> 1 \<le> d \<and> d \<le> days_in_month y m))"
  shows "\<exists>b rs. date_bounds year month day = Inr b
     \<and> get_readings db year month day = Inr (map serialize rs)
     \<and> sorted_wrt (\<lambda>r r'. dt_le (timestamp r') (timestamp r)) rs
     \<and> mset rs = mset (filter (in_bounds b) db)
     \<and> ((\<forall>r \<in> set db. \<not> in_bounds b r) \<longrightarrow> get_readings db year month day = Inr [])"
proof -
  from date_bounds_defined [OF assms] obtain b where b: "date_bounds year month day = Inr b"
    by blast
  let ?rs = "execute_query db b"
  have out: "get_readings db year month day = Inr (map serialize ?rs)"
    using b by (simp add: get_readings_def selected_readings_def)
  have s: "sorted_wrt (\<lambda>r r'. dt_le (timestamp r') (timestamp r)) ?rs"
    unfolding execute_query_def by (rule sorted_order_by_timestamp_desc)
  have m: "mset ?rs = mset (filter (in_bounds b) db)"
    unfolding execute_query_def mset_order_by_timestamp_desc by simp
  have "(\<forall>r \<in> set db. \<not> in_bounds b r) \<longrightarrow> get_readings db year month day = Inr []"
  proof
    assume "\<forall>r \<in> set db. \<not> in_bounds b r"
    then have "filter (in_bounds b) db = []" by (simp add: filter_empty_conv)
    with m have "?rs = []" by simp
    with out show "get_readings db year month day = Inr []" by simp
  qed
  with b out s m show ?thesis by blast
qed

lemma year_2023_bounds:
  "date_bounds (Some 2023) None None = Inr (Some (midnight 2023 1 1, midnight 2024 1 1))"
  by (simp add: date_bounds_def datetime_new_first)

theorem get_readings_newest_first_witness:
  "(\<exists>rs. get_readings [noon_reading, late_reading] None None None = Inr (map serialize rs)
      \<and> sorted_wrt (\<lambda>r r'. dt_le (timestamp r') (timestamp r)) rs
      \<and> mset rs = mset [noon_reading, late_reading])
   \<and> get_readings [noon_reading, late_reading] (Some 2023) None None = Inr []"
proof -
  obtain b rs where "date_bounds None None None = Inr b"
    and "get_readings [noon_reading, late_reading] None None None = Inr (map serialize rs)"
    and "sorted_wrt (\<lambda>r r'. dt_le (timestamp r') (timestamp r)) rs"
    and "mset rs = mset (filter (in_bounds b) [noon_reading, late_reading])"
    using get_readings_newest_first [where year = None and month = None and day = None
        and db = "[noon_reading, late_reading]"]
    by auto
  then have 1: "\<exists>rs. get_readings [noon_reading, late_reading] None None None
        = Inr (map serialize rs)
      \<and> sorted_wrt (\<lambda>r r'. dt_le (timestamp r') (timestamp r)) rs
      \<and> mset rs = mset [noon_reading, late_reading]"
    by (auto simp: date_bounds_no_year in_bounds_def)
  have n: "\<forall>r \<in> set [noon_reading, late_reading].
      \<not> in_bounds (Some (midnight 2023 1 1, midnight 2024 1 1)) r"
    by (simp add: in_bounds_def dt_le_def dt_less_def dt_tuple_def midnight_def
        noon_reading_def late_reading_def)
  obtain b' where "date_bounds (Some 2023) None None = Inr b'"
    and "(\<forall>r \<in> set [noon_reading, late_reading]. \<not> in_bounds b' r) \<longrightarrow>
      get_readings [noon_reading, late_reading] (Some 2023) None None = Inr []"
    using get_readings_newest_first [where year = "Some 2023" and month = None and day = None
        and db = "[noon_reading, late_reading]"]
    by auto
  with n have "get_readings [noon_reading, late_reading] (Some 2023) None None = Inr []"
    by (simp add: year_2023_bounds)
  with 1 show ?thesis by blast
qed

section \<open>Authentication of the endpoints\<close>

text \<open>
  C5, as stated, at its failing inputs. With \<^verbatim>\<open>API_KEYS=a,,b\<close> the empty string is a member
  of the configured key set, yet a request that presents it is not passed through: the
  header scheme refuses an empty header before \<^verbatim>\<open>verify_api_key\<close> compares anything. And
  where the empty string is not a member, the request that presents it fails with the
  status of the scheme, 401, not with 403.
\<close>

theorem empty_key_rejected_by_scheme:
  "[] \<in> srv_API_KEYS nan_server
   \<and> endpoint nan_server (Some []) (Files ''2024-03-17'') [] = (Inl (HTTPException 401), [])
   \<and> [] \<notin> srv_API_KEYS example_server
   \<and> endpoint example_server (Some []) (Readings None None None) [late_reading]
        = (Inl (HTTPException 401), [late_reading])"
  by (simp add: endpoint_def api_key_header_def nan_server_def example_server_def
      get_api_keys_def strip_def comma_def)

lemma handler_reads_only:
  "snd (handler srv (Readings year month day) db) = db"
  "snd (handler srv (Files date) db) = db"
  by (simp_all split: sum.splits)

text \<open>
  C5, amended. For each of the three endpoints: when the header \<^verbatim>\<open>X-API-Key\<close> is missing
  or empty, the request fails with status 401; when the presented key is not empty and
  not in the configured set, it fails with status 403; in both cases no handler runs and
  the table is unchanged. When the key is not empty and in the set, the scheme and
  \<open>verify_api_key\<close> return it unchanged and the request is exactly the handler's.
\<close>

theorem bad_key_forbidden_no_effect:
  "(header = None \<or> header = Some [] \<longrightarrow>
      endpoint srv header req db = (Inl (HTTPException 401), db))
   \<and> (\<forall>api_key. header = Some api_key \<and> api_key \<noteq> [] \<and> api_key \<notin> srv_API_KEYS srv \<longrightarrow>
      endpoint srv header req db = (Inl (HTTPException 403), db)
      \<and> status_code (HTTPException 403) = 403)
   \<and> (\<forall>api_key. header = Some api_key \<and> api_key \<noteq> [] \<and> api_key \<in> srv_API_KEYS srv \<longrightarrow>
      api_key_header header = Inr api_key
      \<and> verify_api_key (srv_API_KEYS srv) api_key = Inr api_key
      \<and> endpoint srv header req db = handler srv req db)"
  by (auto simp: endpoint_def api_key_header_def verify_api_key_def)

theorem bad_key_forbidden_no_effect_witness:
  "endpoint example_server (Some ''wrong'') (Upload ''1.0,2.0,50'') []
     = (Inl (HTTPException 403), [])
   \<and> endpoint example_server (Some ''wrong'') (Readings None None None) [late_reading]
     = (Inl (HTTPException 403), [late_reading])
   \<and> endpoint example_server (Some ''wrong'') (Files ''2024-03-15'') []
     = (Inl (HTTPException 403), [])
   \<and> endpoint example_server None (Upload ''1.0,2.0,50'') [late_reading]
     = (Inl (HTTPException 401), [late_reading])
   \<and> verify_api_key (srv_API_KEYS example_server) ''secret'' = Inr ''secret''
   \<and> endpoint example_server (Some ''secret'') (Files ''2024-03-15'') []
     = handler example_server (Files ''2024-03-15'') []"
proof -
  have w: "''wrong'' \<noteq> [] \<and> ''wrong'' \<notin> srv_API_KEYS example_server"
    and s: "''secret'' \<noteq> [] \<and> ''secret'' \<in> srv_API_KEYS example_server"
    by (simp_all add: example_server_def)
  have a: "\<And>req db. endpoint example_server (Some ''wrong'') req db
      = (Inl (HTTPException 403), db)"
    using bad_key_forbidden_no_effect [of "Some ''wrong''" example_server] w by blast
  have b: "endpoint example_server None (Upload ''1.0,2.0,50'') [late_reading]
      = (Inl (HTTPException 401), [late_reading])"
    using bad_key_forbidden_no_effect [of None example_server "Upload ''1.0,2.0,50''"
        "[late_reading]"]
    by blast
  have c: "verify_api_key (srv_API_KEYS example_server) ''secret'' = Inr ''secret''
      \<and> endpoint example_server (Some ''secret'') (Files ''2024-03-15'') []
        = handler example_server (Files ''2024-03-15'') []"
    using bad_key_forbidden_no_effect [of "Some ''secret''" example_server
        "Files ''2024-03-15''" "[]"] s
    by blast
  from a b c show ?thesis by simp
qed

section \<open>The file endpoint\<close>

lemma utf8_length_append: "utf8_length (a @ b) = utf8_length a + utf8_length b"
  by (simp add: utf8_length_def)

lemma utf8_length_replicate_a: "utf8_length (replicate n (CHR ''a'')) = n"
  by (induction n) (simp_all add: utf8_length_def)

lemma utf8_length_ge_length: "length s \<le> utf8_length s"
  by (induction s) (simp_all add: utf8_length_def)

text \<open>
  C6, as stated, at its failing input. No file is there for a date of 300 letters, but the
  name is longer than a file name may be: \<^verbatim>\<open>file_path.exists()\<close> raises \<^verbatim>\<open>OSError\<close>, which
  the \<^verbatim>\<open>except ValueError\<close> clause does not catch, and the authenticated request ends in an
  unhandled exception, status 500, not in 404.
\<close>

theorem long_date_raises_OSError:
  "srv_files example_server (file_path (srv_DATA_DIR example_server) (replicate 300 (CHR ''a'')))
     = None
   \<and> endpoint example_server (Some ''secret'') (Files (replicate 300 (CHR ''a''))) []
     = (Inl (Unhandled OSError), [])
   \<and> status_code (Unhandled OSError) = 500"
proof -
  let ?d = "replicate 300 (CHR ''a'')"
  let ?p = "file_path ''data'' ?d"
  have len: "length ?p = 309" by (simp add: file_path_def)
  have "?p \<noteq> ''data/2024-03-15.csv''" and "?p \<noteq> ''data/2024-03-16.csv''"
    using len by auto
  then have none: "srv_files example_server ?p = None"
    by (simp add: example_server_def)
  have nul: "CHR 0x00 \<notin> set ?p" by (simp add: file_path_def)
  have long: "name_too_long ''data'' ?d"
    by (simp add: name_too_long_def NAME_MAX_def utf8_length_append utf8_length_replicate_a)
  have "path_exists (srv_files example_server) ''data'' ?d = Inl OSError"
    using none nul long by (simp add: path_exists_def)
  then have "endpoint example_server (Some ''secret'') (Files ?d) [] = (Inl (Unhandled OSError), [])"
    by (simp add: endpoint_def api_key_header_def verify_api_key_def get_file_data_def
        get_file_data_try_def example_server_def)
  with none show ?thesis by (simp add: example_server_def)
qed

text \<open>
  C6, amended. An authenticated request for a date whose file does not exist under the
  data directory, where the name \<^verbatim>\<open><date>.csv\<close> is at most 255 bytes long and the path
  shorter than 4096 bytes, fails with status 404.
\<close>

theorem missing_file_not_found:
  assumes "api_key \<noteq> []" and "api_key \<in> srv_API_KEYS srv"
    and "srv_files srv (file_path (srv_DATA_DIR srv) date) = None"
    and "\<not> name_too_long (srv_DATA_DIR srv) date"
  shows "endpoint srv (Some api_key) (Files date) db = (Inl (HTTPException 404), db)
     \<and> status_code (HTTPException 404) = 404"
proof -
  from assms(3,4) have "path_exists (srv_files srv) (srv_DATA_DIR srv) date = Inr False"
    by (simp add: path_exists_def)
  with assms(1,2) show ?thesis
    by (simp add: endpoint_def api_key_header_def verify_api_key_def get_file_data_def
        get_file_data_try_def)
qed

theorem missing_file_not_found_witness:
  "endpoint example_server (Some ''secret'') (Files ''2024-01-01'') []
     = (Inl (HTTPException 404), [])"
  using missing_file_not_found [of "''secret''" example_server "''2024-01-01''" "[]"]
  by (simp add: example_server_def file_path_def name_too_long_def NAME_MAX_def PATH_MAX_def
      utf8_length_def)

lemma length_four_cases: "length xs = 4 \<Longrightarrow> \<exists>a b c d. xs = [a, b, c, d]"
  by (auto simp: numeral_eq_Suc length_Suc_conv)

lemma file_line_ok:
  assumes "length (split_comma (strip l)) = 4"
    and "\<forall>i<3. py_float env (split_comma (strip l) ! i) \<noteq> None"
  shows "file_line env l = Inr \<lparr>file_longitude = the (py_float env (split_comma (strip l) ! 0)),
       file_latitude = the (py_float env (split_comma (strip l) ! 1)),
       file_aqi = the (py_float env (split_comma (strip l) ! 2)),
       file_timestamp = split_comma (strip l) ! 3\<rparr>"
proof -
  obtain a b c d where s: "split_comma (strip l) = [a, b, c, d]"
    using length_four_cases [OF assms(1)] by blast
  from assms(2) s have "py_float env a \<noteq> None" "py_float env b \<noteq> None" "py_float env c \<noteq> None"
    by (auto simp: numeral_3_eq_3 less_Suc_eq)
  then show ?thesis
    by (auto simp: file_line_def s)
qed

lemma file_line_bad:
  assumes "\<not> (length (split_comma (strip l)) = 4
    \<and> (\<forall>i<3. py_float env (split_comma (strip l) ! i) \<noteq> None))"
  shows "file_line env l = Inl ValueError"
proof (cases "length (split_comma (strip l)) = 4")
  case True
  then obtain a b c d where s: "split_comma (strip l) = [a, b, c, d]"
    using length_four_cases by blast
  with assms True have "py_float env a = None \<or> py_float env b = None \<or> py_float env c = None"
    by (auto simp: numeral_3_eq_3 less_Suc_eq)
  then show ?thesis
    by (auto simp: file_line_def s split: option.splits)
next
  case False
  then show ?thesis
    by (auto simp: file_line_def split: list.splits)
qed


lemma file_lines_all_ok:
  assumes "\<forall>l \<in> set ls. length (split_comma (strip l)) = 4
      \<and> (\<forall>i<3. py_float e (split_comma (strip l) ! i) \<noteq> None)"
  shows "file_lines e ls = Inr (map (\<lambda>l. \<lparr>file_longitude = the (py_float e (split_comma (strip l) ! 0)),
       file_latitude = the (py_float e (split_comma (strip l) ! 1)),
       file_aqi = the (py_float e (split_comma (strip l) ! 2)),
       file_timestamp = split_comma (strip l) ! 3\<rparr>) ls)"
  using assms by (induction ls) (simp_all add: file_line_ok)

lemma file_lines_some_bad:
  assumes "\<exists>l \<in> set ls. \<not> (length (split_comma (strip l)) = 4
      \<and> (\<forall>i<3. py_float e (split_comma (strip l) ! i) \<noteq> None))"
  shows "file_lines e ls = Inl ValueError"
  using assms
proof (induction ls)
  case Nil
  then show ?case by simp
next
  case (Cons l ls)
  show ?case
  proof (cases "length (split_comma (strip l)) = 4
      \<and> (\<forall>i<3. py_float e (split_comma (strip l) ! i) \<noteq> None)")
    case True
    with Cons.prems have "\<exists>l \<in> set ls. \<not> (length (split_comma (strip l)) = 4
      \<and> (\<forall>i<3. py_float e (split_comma (strip l) ! i) \<noteq> None))" by auto
    then have "file_lines e ls = Inl ValueError" by (rule Cons.IH)
    moreover from True have "\<exists>r. file_line e l = Inr r"
      using file_line_ok [of l e] by blast
    ultimately show ?thesis by auto
  next
    case False
    then have "file_line e l = Inl ValueError" by (rule file_line_bad)
    then show ?thesis by simp
  qed
qed

lemma file_found:
  assumes "api_key \<noteq> []" and "api_key \<in> srv_API_KEYS srv"
    and "srv_files srv (file_path (srv_DATA_DIR srv) date) = Some content"
  shows "endpoint srv (Some api_key) (Files date) db =
     (case file_lines (srv_env srv) (splitlines content) of
        Inl ValueError \<Rightarrow> (Inl (HTTPException 400), db)
      | Inl e \<Rightarrow> (Inl (Unhandled e), db)
      | Inr readings \<Rightarrow>
          (case render_file_readings (srv_env srv) readings of
             Inl e \<Rightarrow> (Inl (Unhandled e), db)
           | Inr out \<Rightarrow> (Inr (FileList out), db)))"
proof -
  from assms(3) have "path_exists (srv_files srv) (srv_DATA_DIR srv) date = Inr True"
    by (simp add: path_exists_def)
  with assms show ?thesis
    by (simp add: endpoint_def api_key_header_def verify_api_key_def get_file_data_def
        get_file_data_try_def split: sum.splits pyexc.splits)
qed

text \<open>
  C7, as stated, at its failing input. The only line of the file splits into four fields
  and \<^verbatim>\<open>float\<close> accepts the first three, the first as nan. The handler returns the list,
  but rendering it as JSON raises \<^verbatim>\<open>ValueError\<close> outside the handler, and the request ends
  in status 500 instead of returning the line.
\<close>

theorem nan_line_not_returned:
  "file_lines nan_env (splitlines ''nan,2.0,50,noon'')
     = Inr [\<lparr>file_longitude = NaN, file_latitude = Finite 2, file_aqi = Finite 50,
              file_timestamp = ''noon''\<rparr>]
   \<and> endpoint nan_server (Some ''a'') (Files ''2024-03-17'') [] = (Inl (Unhandled ValueError), [])
   \<and> status_code (Unhandled ValueError) = 500"
proof -
  have l: "file_lines nan_env (splitlines ''nan,2.0,50,noon'')
     = Inr [\<lparr>file_longitude = NaN, file_latitude = Finite 2, file_aqi = Finite 50,
              file_timestamp = ''noon''\<rparr>]"
    by (simp add: file_line_def nan_env_def splitlines_def is_linebreak_def isspace_def strip_def
        LF_def CR_def comma_def)
  have k: "''a'' \<in> srv_API_KEYS nan_server"
    by (simp add: nan_server_def get_api_keys_def strip_def comma_def isspace_def)
  have f: "srv_files nan_server (file_path (srv_DATA_DIR nan_server) ''2024-03-17'')
      = Some ''nan,2.0,50,noon''"
    by (simp add: nan_server_def file_path_def)
  have e: "srv_env nan_server = nan_env" by (simp add: nan_server_def)
  have "endpoint nan_server (Some ''a'') (Files ''2024-03-17'') []
      = (Inl (Unhandled ValueError), [])"
    unfolding file_found [OF _ k f, simplified] e l
    by (simp add: render_file_readings_def nan_env_def)
  with l show ?thesis by simp
qed

text \<open>
  C7, amended. An authenticated request for a date whose file exists: if some line does
  not split at commas into exactly four fields, or one of its first three fields is not
  accepted by \<^verbatim>\<open>float\<close>, the request fails with status 400 and returns nothing; otherwise,
  if all the parsed values are finite, every line is returned, in order, as longitude,
  latitude, aqi and the fourth field as text; and if a parsed value is nan or infinite,
  the request ends in an unhandled \<open>ValueError\<close> and returns nothing.
\<close>

theorem file_read_all_or_nothing:
  assumes "api_key \<noteq> []" and "api_key \<in> srv_API_KEYS srv"
    and "srv_files srv (file_path (srv_DATA_DIR srv) date) = Some content"
  shows "endpoint srv (Some api_key) (Files date) db =
     (if \<forall>l \<in> set (splitlines content). length (split_comma (strip l)) = 4
           \<and> (\<forall>i<3. py_float (srv_env srv) (split_comma (strip l) ! i) \<noteq> None)
      then
        if \<forall>l \<in> set (splitlines content). \<forall>i<3.
             isfinite (srv_env srv) (the (py_float (srv_env srv) (split_comma (strip l) ! i)))
        then Inr (FileList (map (\<lambda>l.
          \<lparr>file_longitude = the (py_float (srv_env srv) (split_comma (strip l) ! 0)),
           file_latitude = the (py_float (srv_env srv) (split_comma (strip l) ! 1)),
           file_aqi = the (py_float (srv_env srv) (split_comma (strip l) ! 2)),
           file_timestamp = split_comma (strip l) ! 3\<rparr>) (splitlines content)))
        else Inl (Unhandled ValueError)
      else Inl (HTTPException 400), db)"
proof (cases "\<forall>l \<in> set (splitlines content). length (split_comma (strip l)) = 4
           \<and> (\<forall>i<3. py_float (srv_env srv) (split_comma (strip l) ! i) \<noteq> None)")
  case True
  let ?mk = "\<lambda>l. \<lparr>file_longitude = the (py_float (srv_env srv) (split_comma (strip l) ! 0)),
         file_latitude = the (py_float (srv_env srv) (split_comma (strip l) ! 1)),
         file_aqi = the (py_float (srv_env srv) (split_comma (strip l) ! 2)),
         file_timestamp = split_comma (strip l) ! 3\<rparr>"
  have l: "file_lines (srv_env srv) (splitlines content) = Inr (map ?mk (splitlines content))"
    using True by (rule file_lines_all_ok)
  have r: "(\<forall>r \<in> set (map ?mk (splitlines content)).
        isfinite (srv_env srv) (file_longitude r) \<and> isfinite (srv_env srv) (file_latitude r)
        \<and> isfinite (srv_env srv) (file_aqi r))
      = (\<forall>l \<in> set (splitlines content). \<forall>i<3.
           isfinite (srv_env srv) (the (py_float (srv_env srv) (split_comma (strip l) ! i))))"
    by (auto simp: numeral_3_eq_3 numeral_2_eq_2 less_Suc_eq)
  have rr: "render_file_readings (srv_env srv) (map ?mk (splitlines content)) =
      (if \<forall>l \<in> set (splitlines content). \<forall>i<3.
           isfinite (srv_env srv) (the (py_float (srv_env srv) (split_comma (strip l) ! i)))
       then Inr (map ?mk (splitlines content)) else Inl ValueError)"
    unfolding render_file_readings_def r by (rule refl)
  show ?thesis
  proof (cases "\<forall>l \<in> set (splitlines content). \<forall>i<3.
           isfinite (srv_env srv) (the (py_float (srv_env srv) (split_comma (strip l) ! i)))")
    case fin: True
    show ?thesis
      by (simp only: file_found [OF assms] l sum.case rr if_P [OF fin] if_P [OF True])
  next
    case nfin: False
    show ?thesis
      by (simp only: file_found [OF assms] l sum.case rr if_not_P [OF nfin] if_P [OF True])
  qed
next
  case False
  then have "file_lines (srv_env srv) (splitlines content) = Inl ValueError"
    by (intro file_lines_some_bad) blast
  then show ?thesis
    by (simp only: file_found [OF assms] sum.case pyexc.case if_not_P [OF False])
qed

lemmas str_eval = splitlines_def is_linebreak_def isspace_def strip_def LF_def CR_def comma_def

theorem file_read_all_or_nothing_witness:
  "endpoint example_server (Some ''secret'') (Files ''2024-03-16'') []
     = (Inl (HTTPException 400), [])
   \<and> endpoint example_server (Some ''secret'') (Files ''2024-03-15'') [] =
     (Inr (FileList [\<lparr>file_longitude = 1, file_latitude = 2, file_aqi = 50,
                       file_timestamp = ''2024-03-15T12:00:00''\<rparr>,
                     \<lparr>file_longitude = 3, file_latitude = 4, file_aqi = 75,
                       file_timestamp = ''noon''\<rparr>]), [])"
  using file_read_all_or_nothing [of "''secret''" example_server "''2024-03-16''"
      "''1.0,2.0,50,2024-03-15T12:00:00'' @ [LF] @ ''3.0,4.0,75''" "[]"]
    file_read_all_or_nothing [of "''secret''" example_server "''2024-03-15''"
      "''1.0,2.0,50,2024-03-15T12:00:00'' @ [LF] @ ''3.0,4.0,75,noon''" "[]"]
  by (simp add: example_server_def example_env_def example_float_def file_path_def str_eval
      numeral_3_eq_3 less_Suc_eq)

section \<open>Uniqueness of ids\<close>

lemma digit_char_inj: "a < 10 \<Longrightarrow> b < 10 \<Longrightarrow> digit_char a = digit_char b \<Longrightarrow> a = b"
proof -
  assume a: "a < 10" and b: "b < 10" and e: "digit_char a = digit_char b"
  have d: "distinct ''0123456789''" by simp
  have l: "length ''0123456789'' = 10" by simp
  from e have "''0123456789'' ! a = ''0123456789'' ! b" by (simp only: digit_char_def)
  with d a b l show "a = b" by (metis nth_eq_iff_index_eq)
qed

lemma digit_char_mem: "n < 10 \<Longrightarrow> digit_char n \<in> set ''0123456789''"
  unfolding digit_char_def by (rule nth_mem) simp

lemma str_nat_length: "0 < length (str_nat n) \<and> (10 \<le> n \<longrightarrow> 2 \<le> length (str_nat n))"
proof (induction n rule: str_nat.induct)
  case (1 n)
  show ?case
  proof (cases "n < 10")
    case True
    then show ?thesis by (simp add: str_nat.simps [of n])
  next
    case False
    with 1 have "0 < length (str_nat (n div 10))" by simp
    then have "1 \<le> length (str_nat (n div 10))" by linarith
    with False show ?thesis by (simp add: str_nat.simps [of n])
  qed
qed

lemma str_nat_inj: "str_nat a = str_nat b \<Longrightarrow> a = b"
proof (induction a arbitrary: b rule: str_nat.induct)
  case (1 a)
  show ?case
  proof (cases "a < 10")
    case True
    then have sa: "str_nat a = [digit_char a]" by (simp add: str_nat.simps [of a])
    show ?thesis
    proof (cases "b < 10")
      case True
      then have "str_nat b = [digit_char b]" by (simp add: str_nat.simps [of b])
      with sa "1.prems" have "digit_char a = digit_char b" by simp
      with \<open>a < 10\<close> True show ?thesis by (rule digit_char_inj)
    next
      case False
      then have "2 \<le> length (str_nat b)" using str_nat_length [of b] by simp
      with sa "1.prems" show ?thesis by simp
    qed
  next
    case False
    then have sa: "str_nat a = str_nat (a div 10) @ [digit_char (a mod 10)]"
      by (simp add: str_nat.simps [of a])
    show ?thesis
    proof (cases "b < 10")
      case True
      then have "str_nat b = [digit_char b]" by (simp add: str_nat.simps [of b])
      moreover from False have "2 \<le> length (str_nat a)" using str_nat_length [of a] by simp
      ultimately show ?thesis using "1.prems" by simp
    next
      case bf: False
      then have "str_nat b = str_nat (b div 10) @ [digit_char (b mod 10)]"
        by (simp add: str_nat.simps [of b])
      with sa "1.prems" have e: "str_nat (a div 10) = str_nat (b div 10)"
        and d: "digit_char (a mod 10) = digit_char (b mod 10)" by simp_all
      from "1.IH" [OF False e] have q: "a div 10 = b div 10" .
      have "a mod 10 = b mod 10" using d by (intro digit_char_inj) simp_all
      with q show ?thesis by (metis div_mult_mod_eq)
    qed
  qed
qed

lemma str_nat_no_underscore: "CHR ''_'' \<notin> set (str_nat n)"
proof (induction n rule: str_nat.induct)
  case (1 n)
  have m: "\<And>k. k < 10 \<Longrightarrow> digit_char k \<noteq> CHR ''_''"
  proof -
    fix k :: nat assume "k < 10"
    then have "digit_char k \<in> set ''0123456789''" by (rule digit_char_mem)
    then show "digit_char k \<noteq> CHR ''_''" by auto
  qed
  show ?case
  proof (cases "n < 10")
    case True
    then show ?thesis using m [of n] by (simp add: str_nat.simps [of n])
  next
    case False
    with 1 have "CHR ''_'' \<notin> set (str_nat (n div 10))" by simp
    moreover have "digit_char (n mod 10) \<noteq> CHR ''_''" by (rule m) simp
    ultimately show ?thesis using False by (simp add: str_nat.simps [of n])
  qed
qed

lemma suffix_after_underscore:
  assumes "p @ ''_'' @ str_nat i = q @ ''_'' @ str_nat j"
  shows "i = j"
proof -
  have "\<And>p n. takeWhile (\<lambda>c. c \<noteq> CHR ''_'') (rev (p @ ''_'' @ str_nat n)) = rev (str_nat n)"
  proof -
    fix p n
    have "rev (p @ ''_'' @ str_nat n) = rev (str_nat n) @ CHR ''_'' # rev p" by simp
    moreover have "\<forall>c \<in> set (rev (str_nat n)). c \<noteq> CHR ''_''"
      using str_nat_no_underscore [of n] by auto
    ultimately show "takeWhile (\<lambda>c. c \<noteq> CHR ''_'') (rev (p @ ''_'' @ str_nat n)) = rev (str_nat n)"
      by (simp add: takeWhile_tail)
  qed
  note tw = this
  have "takeWhile (\<lambda>c. c \<noteq> CHR ''_'') (rev (p @ ''_'' @ str_nat i))
      = takeWhile (\<lambda>c. c \<noteq> CHR ''_'') (rev (q @ ''_'' @ str_nat j))"
    using assms by (simp only:)
  then have "rev (str_nat i) = rev (str_nat j)" by (simp only: tw)
  then have "str_nat i = str_nat j" by simp
  then show ?thesis by (rule str_nat_inj)
qed

lemma collect_readings_id:
  "r \<in> set (collect_readings env i k rows) \<Longrightarrow>
   \<exists>j p. i \<le> j \<and> reading_id r = p @ ''_'' @ str_nat j"
proof (induction rows arbitrary: i k)
  case Nil
  then show ?case by simp
next
  case (Cons row rows)
  show ?case
  proof (cases "length row \<noteq> 3 \<or> row_floats env row = None")
    case True
    with Cons.prems have "r \<in> set (collect_readings env (i + 1) k rows)"
      by (auto split: if_splits)
    from Cons.IH [OF this] show ?thesis by (meson add_leD1)
  next
    case False
    then obtain lon lat a where f: "row_floats env row = Some (lon, lat, a)" by auto
    with False Cons.prems
    consider "r = new_reading env i k row lon lat a"
      | "r \<in> set (collect_readings env (i + 1) (k + 1) rows)" by auto
    then show ?thesis
    proof cases
      case 1
      have "reading_id r = (format_float env (posix_timestamp env (utcnow env k)) @ ''_''
             @ format_float env lon @ ''_'' @ format_float env lat) @ ''_'' @ str_nat i"
        by (simp add: 1 new_reading_def Let_def)
      then show ?thesis by blast
    next
      case 2
      from Cons.IH [OF this] show ?thesis by (meson add_leD1)
    qed
  qed
qed

lemma distinct_collect_readings: "distinct (map reading_id (collect_readings env i k rows))"
proof (induction rows arbitrary: i k)
  case Nil
  then show ?case by simp
next
  case (Cons row rows)
  show ?case
  proof (cases "length row \<noteq> 3 \<or> row_floats env row = None")
    case True
    then show ?thesis using Cons.IH [of "i + 1" k] by auto
  next
    case False
    then obtain lon lat a where f: "row_floats env row = Some (lon, lat, a)" by auto
    have h: "reading_id (new_reading env i k row lon lat a) =
        (format_float env (posix_timestamp env (utcnow env k)) @ ''_''
             @ format_float env lon @ ''_'' @ format_float env lat) @ ''_'' @ str_nat i"
      by (simp add: new_reading_def Let_def)
    have "reading_id (new_reading env i k row lon lat a)
        \<notin> reading_id ` set (collect_readings env (i + 1) (k + 1) rows)"
    proof
      assume "reading_id (new_reading env i k row lon lat a)
        \<in> reading_id ` set (collect_readings env (i + 1) (k + 1) rows)"
      then obtain r where r: "r \<in> set (collect_readings env (i + 1) (k + 1) rows)"
        and e: "reading_id (new_reading env i k row lon lat a) = reading_id r" by auto
      from collect_readings_id [OF r] obtain j p where j: "i + 1 \<le> j"
        and p: "reading_id r = p @ ''_'' @ str_nat j" by blast
      from h e p have "i = j" using suffix_after_underscore by metis
      with j show False by simp
    qed
    with False f show ?thesis using Cons.IH [of "i + 1" "k + 1"] by simp
  qed
qed

lemma add_all_commit_distinct:
  assumes "distinct (map reading_id db)" and "add_all_commit db rs = Inr db'"
  shows "distinct (map reading_id db')"
proof -
  from assms(2) have d: "distinct (map reading_id rs)"
    and f: "\<forall>r \<in> set rs. reading_id r \<notin> set (map reading_id db)" and e: "db' = db @ rs"
    by (auto simp: add_all_commit_def split: if_splits)
  have "set (map reading_id db) \<inter> set (map reading_id rs) = {}"
  proof (rule equals0I)
    fix x assume "x \<in> set (map reading_id db) \<inter> set (map reading_id rs)"
    then have x: "x \<in> set (map reading_id db)" and "x \<in> reading_id ` set rs" by simp_all
    then obtain r where "r \<in> set rs" and "x = reading_id r" by blast
    with f x show False by blast
  qed
  with assms(1) d e show ?thesis by simp
qed

text \<open>
  C8. The ids of the stored readings are pairwise distinct: the ids built for one batch
  differ from each other, since each ends in the ordinal of its row, and an upload keeps
  the ids of the table distinct, whether it commits or fails, since the primary key
  rejects a batch that repeats an id.
\<close>

theorem reading_ids_unique:
  "distinct (map reading_id (collect_readings env 0 0 rows))
   \<and> (distinct (map reading_id db) \<longrightarrow>
        distinct (map reading_id (snd (upload_data env db text_content))))"
proof -
  have "distinct (map reading_id (snd (upload_data env db text_content)))"
    if d: "distinct (map reading_id db)"
  proof (cases "csv_reader text_content")
    case (Inl e)
    then show ?thesis using d by (simp add: upload_data_def)
  next
    case (Inr rs)
    show ?thesis
    proof (cases "add_all_commit db (collect_readings env 0 0 rs)")
      case (Inl e)
      then show ?thesis using d Inr by (simp add: upload_data_def)
    next
      case c: (Inr db')
      from add_all_commit_distinct [OF d c] show ?thesis using Inr c by (simp add: upload_data_def)
    qed
  qed
  then show ?thesis by (simp add: distinct_collect_readings)
qed

theorem reading_ids_unique_witness:
  "distinct (map reading_id
     (collect_readings example_env 0 0 [[''1.0'', ''2.0'', ''50''], [''bad'', ''row''],
        [''3.0'', ''4.0'', ''75'']]))
   \<and> distinct (map reading_id (snd (upload_data example_env [] ''1.0,2.0,50'')))"
  using reading_ids_unique [of example_env
      "[[''1.0'', ''2.0'', ''50''], [''bad'', ''row''], [''3.0'', ''4.0'', ''75'']]" "[]"
      "''1.0,2.0,50''"]
  by simp

section \<open>The upload\<close>

lemma row_floats_three:
  "length row = 3 \<Longrightarrow>
   row_floats env row =
     (if \<forall>i<3. py_float env (row ! i) \<noteq> None
      then Some (the (py_float env (row ! 0)), the (py_float env (row ! 1)),
        the (py_float env (row ! 2)))
      else None)"
proof -
  assume "length row = 3"
  then obtain a b c where r: "row = [a, b, c]"
    by (auto simp: numeral_eq_Suc length_Suc_conv)
  show ?thesis
    by (auto simp: r numeral_3_eq_3 less_Suc_eq split: option.splits)
qed

lemma collect_readings_fields:
  "map (\<lambda>r. (longitude r, latitude r, aqi r, raw_data r)) (collect_readings env i k rows) =
   map (\<lambda>row. (the (py_float env (row ! 0)), the (py_float env (row ! 1)),
          the (py_float env (row ! 2)), Some (join_comma row)))
     (filter (\<lambda>row. length row = 3 \<and> (\<forall>i<3. py_float env (row ! i) \<noteq> None)) rows)"
proof (induction rows arbitrary: i k)
  case Nil
  then show ?case by simp
next
  case (Cons row rows)
  show ?case
  proof (cases "length row = 3")
    case False
    then show ?thesis using Cons.IH [of "i + 1" k] by simp
  next
    case True
    show ?thesis
    proof (cases "\<forall>i<3. py_float env (row ! i) \<noteq> None")
      case False
      with True have "row_floats env row = None" by (simp add: row_floats_three)
      with True False show ?thesis using Cons.IH [of "i + 1" k] by simp
    next
      case v: True
      with True have "row_floats env row = Some (the (py_float env (row ! 0)),
          the (py_float env (row ! 1)), the (py_float env (row ! 2)))"
        by (simp add: row_floats_three)
      with True v show ?thesis using Cons.IH [of "i + 1" "k + 1"]
        by (simp add: new_reading_def Let_def)
    qed
  qed
qed

text \<open>
  C2, amended. When the CSV reader parses the payload without raising and none of the new
  ids is already stored, the upload stores exactly one reading per row that has exactly
  three fields all accepted by \<^verbatim>\<open>float\<close>, in the order of the rows, with those three
  values; it answers with their number; every other row is skipped without an error.
\<close>

theorem upload_stores_valid_rows:
  assumes "csv_reader text_content = Inr rows"
    and "\<forall>r \<in> set (collect_readings env 0 0 rows). reading_id r \<notin> set (map reading_id db)"
  shows "\<exists>rs. upload_data env db text_content = (Inr (upload_message (length rs)), db @ rs)
     \<and> length rs = length (filter (\<lambda>row. length row = 3
          \<and> (\<forall>i<3. py_float env (row ! i) \<noteq> None)) rows)
     \<and> map (\<lambda>r. (longitude r, latitude r, aqi r, raw_data r)) rs =
       map (\<lambda>row. (the (py_float env (row ! 0)), the (py_float env (row ! 1)),
              the (py_float env (row ! 2)), Some (join_comma row)))
         (filter (\<lambda>row. length row = 3 \<and> (\<forall>i<3. py_float env (row ! i) \<noteq> None)) rows)"
proof -
  let ?rs = "collect_readings env 0 0 rows"
  have "distinct (map reading_id ?rs)" by (rule distinct_collect_readings)
  with assms(2) have "add_all_commit db ?rs = Inr (db @ ?rs)"
    by (simp add: add_all_commit_def)
  with assms(1) have u: "upload_data env db text_content = (Inr (upload_message (length ?rs)), db @ ?rs)"
    by (simp add: upload_data_def Let_def)
  have f: "map (\<lambda>r. (longitude r, latitude r, aqi r, raw_data r)) ?rs =
       map (\<lambda>row. (the (py_float env (row ! 0)), the (py_float env (row ! 1)),
              the (py_float env (row ! 2)), Some (join_comma row)))
         (filter (\<lambda>row. length row = 3 \<and> (\<forall>i<3. py_float env (row ! i) \<noteq> None)) rows)"
    by (rule collect_readings_fields)
  from arg_cong [OF f, of length] have "length ?rs = length (filter (\<lambda>row. length row = 3
          \<and> (\<forall>i<3. py_float env (row ! i) \<noteq> None)) rows)" by simp
  with u f show ?thesis by blast
qed

lemmas csv_eval = csv_reader_def parse_process_char.simps start_field_def parse_add_char_def
  parse_save_field_def parse_reset_def line_end_def after_line_end_def field_limit_def
  LF_def CR_def comma_def quotechar_def

text \<open>
  C2, as stated, at its failing input. In a payload of three lines whose second line holds
  a carriage return between other characters, the CSV reader raises \<^verbatim>\<open>csv.Error\<close> while
  the loop asks for the next row; this is outside the \<^verbatim>\<open>try\<close> of the loop, so the upload
  ends in an unhandled exception and stores nothing, although the first and the third
  line are valid rows.
\<close>

theorem upload_aborts_on_carriage_return:
  "upload_data example_env []
     (''1.0,2.0,50'' @ [LF] @ ''bad'' @ [CR] @ ''row'' @ [LF] @ ''3.0,4.0,75'')
   = (Inl (Unhandled CsvError), [])"
  by (simp add: upload_data_def csv_eval)

lemma scenario_rows: "csv_reader (''1.0,2.0,50'' @ [LF] @ ''bad,row'' @ [LF] @ ''3.0,4.0,75'')
   = Inr [[''1.0'', ''2.0'', ''50''], [''bad'', ''row''], [''3.0'', ''4.0'', ''75'']]"
  by (simp add: csv_eval)

lemma str_nat_small: "n < 10 \<Longrightarrow> str_nat n = [digit_char n]"
  by (simp add: str_nat.simps [of n])

theorem upload_stores_valid_rows_witness:
  "\<exists>rs. upload_data example_env []
       (''1.0,2.0,50'' @ [LF] @ ''bad,row'' @ [LF] @ ''3.0,4.0,75'')
     = (Inr ''Successfully uploaded 2 readings'', rs)
     \<and> map (\<lambda>r. (longitude r, latitude r, aqi r, raw_data r)) rs =
        [(1, 2, 50, Some ''1.0,2.0,50''), (3, 4, 75, Some ''3.0,4.0,75'')]"
  using upload_stores_valid_rows [OF scenario_rows, of example_env "[]"]
  by (auto simp: example_env_def example_float_def numeral_3_eq_3 less_Suc_eq upload_message_def
      str_nat_small digit_char_def)

section \<open>The text kept with a reading\<close>

lemma split_comma_not_Nil: "split_comma s \<noteq> []"
  by (induction s) (simp_all split: list.splits)

lemma split_comma_Cons:
  "split_comma (c # cs) =
     (if c = comma then [] # split_comma cs
      else (c # hd (split_comma cs)) # tl (split_comma cs))"
  using split_comma_not_Nil [of cs] by (cases "split_comma cs") simp_all

lemma join_comma_Cons: "join_comma ((c # f) # fs) = c # join_comma (f # fs)"
  by (cases fs) simp_all

lemma join_comma_Nil_Cons: "fs \<noteq> [] \<Longrightarrow> join_comma ([] # fs) = comma # join_comma fs"
  by (cases fs) (simp_all add: comma_def)

lemma join_split_comma: "join_comma (split_comma s) = s"
proof (induction s)
  case Nil
  then show ?case by simp
next
  case (Cons c cs)
  obtain f fs where s: "split_comma cs = f # fs"
    using split_comma_not_Nil [of cs] by (cases "split_comma cs") auto
  show ?case
  proof (cases "c = comma")
    case True
    then show ?thesis using Cons.IH split_comma_not_Nil [of cs]
      by (simp add: join_comma_Nil_Cons)
  next
    case False
    then show ?thesis using Cons.IH s by (simp add: join_comma_Cons)
  qed
qed

lemma eat_crnl:
  assumes "rd_state self = EAT_CRNL" and "process_line self t = Inr r"
  shows "rd_state r = START_RECORD \<and> rd_fields r = rd_fields self"
  using assms
proof (induction t arbitrary: self)
  case Nil
  then show ?case by (auto simp: parse_process_char.simps)
next
  case (Cons c t)
  from Cons.prems have c: "c = LF \<or> c = CR"
    by (auto simp: parse_process_char.simps split: if_splits)
  with Cons.prems have "parse_process_char self (Ch c) = Inr self"
    by (auto simp: parse_process_char.simps)
  with Cons.prems(2) have "process_line self t = Inr r" by simp
  from Cons.IH [OF Cons.prems(1) this] show ?case .
qed

lemma plain_chars:
  assumes "rd_state self = START_FIELD \<or> rd_state self = IN_FIELD"
    and "\<forall>c \<in> set cs. c \<noteq> LF \<and> c \<noteq> CR \<and> c \<noteq> quotechar"
    and "t = [] \<or> hd t = LF \<or> hd t = CR"
    and "process_line self (cs @ t) = Inr r"
  shows "rd_state r = START_RECORD
     \<and> rd_fields r = rd_fields self @ (rd_field self @ hd (split_comma cs)) # tl (split_comma cs)"
  using assms
proof (induction cs arbitrary: self)
  case Nil
  show ?case
  proof (cases t)
    case Nil
    with Nil.prems show ?thesis
      by (auto simp: parse_process_char.simps start_field_def line_end_def after_line_end_def
          parse_save_field_def)
  next
    case (Cons c t')
    with Nil.prems(3) have c: "c = LF \<or> c = CR" by simp
    let ?s = "(parse_save_field self)\<lparr>rd_state := EAT_CRNL\<rparr>"
    have "parse_process_char self (Ch c) = Inr ?s"
      using Nil.prems(1) c
      by (auto simp: parse_process_char.simps start_field_def line_end_def after_line_end_def)
    with Nil.prems(4) Cons have "process_line ?s t' = Inr r" by simp
    from eat_crnl [OF _ this] show ?thesis by (simp add: parse_save_field_def)
  qed
next
  case (Cons c cs)
  from Cons.prems(2) have c: "c \<noteq> LF" "c \<noteq> CR" "c \<noteq> quotechar"
    and cs: "\<forall>c \<in> set cs. c \<noteq> LF \<and> c \<noteq> CR \<and> c \<noteq> quotechar" by simp_all
  show ?case
  proof (cases "c = comma")
    case True
    let ?s = "(parse_save_field self)\<lparr>rd_state := START_FIELD\<rparr>"
    have "parse_process_char self (Ch c) = Inr ?s"
      using Cons.prems(1) c True
      by (auto simp: parse_process_char.simps start_field_def line_end_def parse_save_field_def)
    with Cons.prems(4) have p: "process_line ?s (cs @ t) = Inr r" by simp
    have "rd_state ?s = START_FIELD \<or> rd_state ?s = IN_FIELD" by simp
    from Cons.IH [OF this cs Cons.prems(3) p] show ?thesis
      using True split_comma_not_Nil [of cs]
      by (simp add: split_comma_Cons parse_save_field_def del: split_comma.simps)
  next
    case False
    from Cons.prems(4) obtain s' where a: "parse_process_char self (Ch c) = Inr s'"
      and p: "process_line s' (cs @ t) = Inr r"
      by (auto split: sum.splits)
    from a have s': "s' = self\<lparr>rd_field := rd_field self @ [c], rd_state := IN_FIELD\<rparr>"
      using Cons.prems(1) c False
      by (auto simp: parse_process_char.simps start_field_def line_end_def parse_add_char_def
          split: if_splits)
    then have "rd_state s' = START_FIELD \<or> rd_state s' = IN_FIELD" by simp
    from Cons.IH [OF this cs Cons.prems(3) p] show ?thesis
      using False s' by (simp add: split_comma_Cons del: split_comma.simps)
  qed
qed

lemma plain_line:
  assumes "\<forall>c \<in> set body. c \<noteq> LF \<and> c \<noteq> CR \<and> c \<noteq> quotechar"
    and "t = [] \<or> hd t = LF \<or> hd t = CR"
    and "body @ t \<noteq> []"
    and "process_line parse_reset (body @ t) = Inr r"
  shows "rd_state r = START_RECORD
     \<and> rd_fields r = (if body = [] then [] else split_comma body)"
proof (cases body)
  case Nil
  with assms(2,3) obtain c t' where t: "t = c # t'" and c: "c = LF \<or> c = CR"
    by (cases t) auto
  let ?s = "parse_reset\<lparr>rd_state := EAT_CRNL\<rparr>"
  have "parse_process_char parse_reset (Ch c) = Inr ?s"
    using c by (auto simp: parse_process_char.simps parse_reset_def)
  with assms(4) Nil t have "process_line ?s t' = Inr r" by simp
  from eat_crnl [OF _ this] show ?thesis using Nil by (simp add: parse_reset_def)
next
  case (Cons c cs)
  let ?s = "parse_reset\<lparr>rd_state := START_FIELD\<rparr>"
  from assms(1) Cons have c: "c \<noteq> LF" "c \<noteq> CR" by simp_all
  have "parse_process_char parse_reset (Ch c) = parse_process_char ?s (Ch c)"
    using c by (simp add: parse_process_char.simps parse_reset_def)
  then have "process_line ?s (body @ t) = Inr r"
    using assms(4) Cons by simp
  from plain_chars [OF _ assms(1) assms(2) this] show ?thesis
    using Cons split_comma_not_Nil [of body] by (simp add: parse_reset_def)
qed

lemma plain_rows:
  assumes "\<forall>l \<in> set ls. l \<noteq> [] \<and> quotechar \<notin> set l"
    and "reader_rows parse_reset ls = Inr rows"
  shows "rows = map (\<lambda>l. if takeWhile (\<lambda>c. c \<noteq> LF \<and> c \<noteq> CR) l = [] then []
                         else split_comma (takeWhile (\<lambda>c. c \<noteq> LF \<and> c \<noteq> CR) l)) ls"
  using assms
proof (induction ls arbitrary: rows)
  case Nil
  then show ?case by (simp add: parse_reset_def)
next
  case (Cons l ls)
  let ?body = "takeWhile (\<lambda>c. c \<noteq> LF \<and> c \<noteq> CR) l"
  let ?t = "dropWhile (\<lambda>c. c \<noteq> LF \<and> c \<noteq> CR) l"
  from Cons.prems(1) have l: "l \<noteq> []" "quotechar \<notin> set l" by simp_all
  have split: "l = ?body @ ?t" by simp
  have b: "\<forall>c \<in> set ?body. c \<noteq> LF \<and> c \<noteq> CR \<and> c \<noteq> quotechar"
  proof
    fix c assume c: "c \<in> set ?body"
    then have "c \<noteq> LF \<and> c \<noteq> CR" by (rule set_takeWhileD [THEN conjunct2])
    moreover from c have "c \<in> set l" by (rule set_takeWhileD [THEN conjunct1])
    ultimately show "c \<noteq> LF \<and> c \<noteq> CR \<and> c \<noteq> quotechar" using l(2) by auto
  qed
  have t: "?t = [] \<or> hd ?t = LF \<or> hd ?t = CR"
    using hd_dropWhile [of "\<lambda>c. c \<noteq> LF \<and> c \<noteq> CR" l] by auto
  from Cons.prems(2) obtain r where r: "process_line parse_reset l = Inr r"
    by (auto split: sum.splits)
  have ne: "?body @ ?t \<noteq> []" using l(1) by simp
  have "process_line parse_reset (?body @ ?t) = Inr r" using r by simp
  from plain_line [OF b t ne this]
  have st: "rd_state r = START_RECORD"
    and f: "rd_fields r = (if ?body = [] then [] else split_comma ?body)" by simp_all
  from Cons.prems(2) r st obtain rows' where rr: "reader_rows parse_reset ls = Inr rows'"
    and rows: "rows = rd_fields r # rows'"
    by (auto split: sum.splits)
  from Cons.prems(1) have "\<forall>l \<in> set ls. l \<noteq> [] \<and> quotechar \<notin> set l" by simp
  from Cons.IH [OF this rr] show ?case
    using rows f by simp
qed

lemma readlines_shape:
  "\<forall>l \<in> set (readlines s). l \<noteq> [] \<and> set l \<subseteq> set s"
proof (induction s)
  case Nil
  then show ?case by simp
next
  case (Cons c cs)
  show ?case
  proof (cases "c = LF")
    case True
    with Cons show ?thesis by auto
  next
    case False
    show ?thesis
    proof (cases "readlines cs")
      case Nil
      with False show ?thesis by simp
    next
      case l: (Cons l ls)
      with Cons have "l \<noteq> [] \<and> set l \<subseteq> set cs"
        and "\<forall>l \<in> set ls. l \<noteq> [] \<and> set l \<subseteq> set cs" by simp_all
      with False l show ?thesis by auto
    qed
  qed
qed

lemma raw_of_plain_rows:
  "map (\<lambda>row. Some (join_comma row))
     (filter (\<lambda>row. length row = 3 \<and> (\<forall>i<3. py_float env (row ! i) \<noteq> None))
        (map (\<lambda>b. if b = [] then [] else split_comma b) bs)) =
   map Some (filter (\<lambda>b. length (split_comma b) = 3
      \<and> (\<forall>i<3. py_float env (split_comma b ! i) \<noteq> None)) bs)"
  by (induction bs) (simp_all add: join_split_comma)

text \<open>
  C9, as stated, at its failing input. The reader removes the quotes of a quoted field,
  and \<open>raw_data\<close> is the fields joined again with commas: for the payload
  \<^verbatim>\<open>"1.0",2.0,50\<close> the stored text is \<^verbatim>\<open>1.0,2.0,50\<close>, which is not the uploaded row.
\<close>

theorem raw_data_loses_quotes:
  "map raw_data (snd (upload_data example_env []
       ([quotechar] @ ''1.0'' @ [quotechar] @ '',2.0,50'')))
     = [Some ''1.0,2.0,50'']
   \<and> [quotechar] @ ''1.0'' @ [quotechar] @ '',2.0,50'' \<noteq> ''1.0,2.0,50''"
  by (simp add: upload_data_def csv_eval add_all_commit_def new_reading_def example_env_def
      example_float_def)

text \<open>
  C9, amended. For every uploaded row that survives validation, the stored \<open>raw_data\<close> is
  the fields of the parsed row joined again with commas; when the payload holds no double
  quote, this is the original row verbatim: the \<open>raw_data\<close> of the readings added to the
  table are, in order, exactly the lines of the payload, without their line end (LF or
  CR LF), that have three fields accepted by \<^verbatim>\<open>float\<close>. (The hypotheses are that the
  reader parses the payload and that no new id is already stored, without which nothing
  is stored.)
\<close>

theorem raw_data_verbatim_without_quotes:
  assumes "csv_reader text_content = Inr rows"
    and "\<forall>r \<in> set (collect_readings env 0 0 rows). reading_id r \<notin> set (map reading_id db)"
  shows "\<exists>rs. snd (upload_data env db text_content) = db @ rs
     \<and> map raw_data rs =
        map (\<lambda>row. Some (join_comma row))
          (filter (\<lambda>row. length row = 3 \<and> (\<forall>i<3. py_float env (row ! i) \<noteq> None)) rows)
     \<and> (quotechar \<notin> set text_content \<longrightarrow>
         map raw_data rs =
           map Some (filter (\<lambda>l. length (split_comma l) = 3
               \<and> (\<forall>i<3. py_float env (split_comma l ! i) \<noteq> None))
             (map (takeWhile (\<lambda>c. c \<noteq> LF \<and> c \<noteq> CR)) (readlines text_content))))"
proof -
  let ?rs = "collect_readings env 0 0 rows"
  have "distinct (map reading_id ?rs)" by (rule distinct_collect_readings)
  with assms(2) have "add_all_commit db ?rs = Inr (db @ ?rs)"
    by (simp add: add_all_commit_def)
  with assms(1) have u: "snd (upload_data env db text_content) = db @ ?rs"
    by (simp add: upload_data_def Let_def)
  have "map raw_data ?rs =
      map (\<lambda>x. snd (snd (snd x))) (map (\<lambda>r. (longitude r, latitude r, aqi r, raw_data r)) ?rs)"
    by (simp add: o_def)
  also have "\<dots> = map (\<lambda>row. Some (join_comma row))
     (filter (\<lambda>row. length row = 3 \<and> (\<forall>i<3. py_float env (row ! i) \<noteq> None)) rows)"
    by (simp only: collect_readings_fields) (simp add: o_def)
  finally have j: "map raw_data ?rs = map (\<lambda>row. Some (join_comma row))
     (filter (\<lambda>row. length row = 3 \<and> (\<forall>i<3. py_float env (row ! i) \<noteq> None)) rows)" .
  have v: "map raw_data ?rs =
           map Some (filter (\<lambda>l. length (split_comma l) = 3
               \<and> (\<forall>i<3. py_float env (split_comma l ! i) \<noteq> None))
             (map (takeWhile (\<lambda>c. c \<noteq> LF \<and> c \<noteq> CR)) (readlines text_content)))"
    if q: "quotechar \<notin> set text_content"
  proof -
    have "\<forall>l \<in> set (readlines text_content). l \<noteq> [] \<and> quotechar \<notin> set l"
      using readlines_shape [of text_content] q by blast
    then have "rows = map (\<lambda>l. if takeWhile (\<lambda>c. c \<noteq> LF \<and> c \<noteq> CR) l = [] then []
        else split_comma (takeWhile (\<lambda>c. c \<noteq> LF \<and> c \<noteq> CR) l)) (readlines text_content)"
      using assms(1) unfolding csv_reader_def by (rule plain_rows)
    then have rows: "rows = map (\<lambda>b. if b = [] then [] else split_comma b)
        (map (takeWhile (\<lambda>c. c \<noteq> LF \<and> c \<noteq> CR)) (readlines text_content))"
      by (simp add: o_def)
    show ?thesis
      unfolding j by (simp only: rows raw_of_plain_rows)
  qed
  from u j v show ?thesis by blast
qed

lemma crlf_rows:
  "csv_reader (''1.0,2.0,50'' @ [CR, LF] @ ''bad,row'' @ [CR, LF] @ ''3.0,4.0,75'' @ [CR, LF])
   = Inr [[''1.0'', ''2.0'', ''50''], [''bad'', ''row''], [''3.0'', ''4.0'', ''75'']]"
  by (simp add: csv_eval)

theorem raw_data_verbatim_without_quotes_witness:
  "\<exists>rs. snd (upload_data example_env []
       (''1.0,2.0,50'' @ [CR, LF] @ ''bad,row'' @ [CR, LF] @ ''3.0,4.0,75'' @ [CR, LF])) = rs
     \<and> map raw_data rs = [Some ''1.0,2.0,50'', Some ''3.0,4.0,75'']"
  using raw_data_verbatim_without_quotes [OF crlf_rows, of example_env "[]"]
  by (simp add: example_env_def example_float_def numeral_3_eq_3 less_Suc_eq LF_def CR_def
      quotechar_def comma_def)

section \<open>A query on two readings\<close>

lemma replicate_3: "replicate 3 c = [c, c, c]"
  by (simp add: numeral_3_eq_3)

lemma two_readings_unfiltered: "get_readings [noon_reading, late_reading] None None None =
     Inr [\<lparr>out_longitude = 1, out_latitude = 2, out_aqi = 50,
            out_timestamp = ''2024-03-15T23:59:59'', out_raw_data = Some ''1.0,2.0,50''\<rparr>,
          \<lparr>out_longitude = 3, out_latitude = 4, out_aqi = 75,
            out_timestamp = ''2024-03-15T12:00:00.000250'', out_raw_data = Some ''3.0,4.0,75''\<rparr>]"
  by (simp add: get_readings_def selected_readings_def date_bounds_def execute_query_def
      order_by_timestamp_desc_def in_bounds_def dt_tuple_def late_reading_def noon_reading_def
      serialize_def isoformat_def zfill_def str_nat.simps digit_char_def replicate_3)

end
